theory Spec2Isabelle
  imports Main "HOL-Library.Word"
begin

section \<open>Python values\<close>

text \<open>
  A Python \<open>str\<close> is a sequence of Unicode code points. The literals of the source are
  ASCII but for the messages, whose code points are written out.
\<close>

type_synonym str = "nat list"

definition ascii :: "string \<Rightarrow> str" where
  "ascii s = map of_char s"

text \<open>
  What \<open>response.json()\<close> decodes to: \<open>None\<close>, \<open>bool\<close>, \<open>int\<close>, \<open>float\<close> (the 64 bits of
  the double), \<open>str\<close>, \<open>list\<close> and \<open>dict\<close>. A dict is an association list in insertion
  order; a lookup takes the first binding of the key.
\<close>

datatype jvalue =
    JNull
  | JBool bool
  | JInt int
  | JFloat "64 word"
  | JString str
  | JArray "jvalue list"
  | JObject "(str \<times> jvalue) list"

text \<open>The key of a subscript \<open>x[k]\<close>: the source uses string keys and the index 0.\<close>

datatype pykey = KStr str | KInt int

section \<open>The upstream response and the exceptions\<close>

text \<open>
  The failure of \<open>response.json()\<close> on a body that is not JSON. The requests library
  raises its own \<open>requests.exceptions.JSONDecodeError\<close> since version 2.27 (a
  RequestException and a ValueError), and the decoder's \<open>JSONDecodeError\<close> (a ValueError
  only) before. Each carries its text.
\<close>

datatype json_error = RequestsJSONDecodeError str | JSONDecodeError str

text \<open>
  The fields of a \<open>requests.Response\<close> that the handler reads; \<open>json\<close> is the outcome of
  the method \<open>response.json()\<close>.
\<close>

record response =
  status_code :: int
  reason :: str
  url :: str
  json :: "json_error + jvalue"

text \<open>
  The exceptions of the handler, each with what \<open>str(e)\<close> prints from.
  \<open>Timeout\<close> is \<open>requests.exceptions.Timeout\<close>; \<open>RequestException\<close> is every other
  \<open>requests.exceptions.RequestException\<close> (HTTPError, ConnectionError, ...), with its text
  and its attribute \<open>e.response\<close>; \<open>UnicodeEncodeError\<close> (a ValueError) carries the
  character that could not be encoded and the positions where the run it begins starts
  and stops; \<open>OtherException\<close> is any other subclass of \<open>Exception\<close> that the call may raise.
\<close>

datatype exc =
    Timeout str
  | RequestException str "response option"
  | ValueError str
  | KeyError pykey
  | IndexError str
  | TypeError str
  | AttributeError str
  | UnicodeEncodeError nat nat nat
  | OtherException str

text \<open>What \<open>requests.post\<close> does: it returns a response or raises.\<close>

datatype post_outcome = Post_returns response | Post_raises exc

section \<open>Operations of the interpreter\<close>

text \<open>\<open>bool(x)\<close>, as \<open>if x:\<close> and \<open>and\<close> test it.\<close>

fun truthy :: "jvalue \<Rightarrow> bool" where
  "truthy JNull = False"
| "truthy (JBool b) = b"
| "truthy (JInt i) = (i \<noteq> 0)"
| "truthy (JFloat w) = (take_bit 63 w \<noteq> 0)"
| "truthy (JString s) = (s \<noteq> [])"
| "truthy (JArray xs) = (xs \<noteq> [])"
| "truthy (JObject kvs) = (kvs \<noteq> [])"

fun type_name :: "jvalue \<Rightarrow> str" where
  "type_name JNull = ascii ''NoneType''"
| "type_name (JBool b) = ascii ''bool''"
| "type_name (JInt i) = ascii ''int''"
| "type_name (JFloat w) = ascii ''float''"
| "type_name (JString s) = ascii ''str''"
| "type_name (JArray xs) = ascii ''list''"
| "type_name (JObject kvs) = ascii ''dict''"

text \<open>
  The texts of the interpreter's own exceptions, as CPython 3.11 and later print them;
  39 is the apostrophe.
\<close>

definition quoted :: "str \<Rightarrow> str" where
  "quoted s = [39] @ s @ [39]"

definition no_attribute :: "jvalue \<Rightarrow> str \<Rightarrow> exc" where
  "no_attribute x a =
     AttributeError (quoted (type_name x) @ ascii '' object has no attribute '' @ quoted a)"

definition not_subscriptable :: "jvalue \<Rightarrow> exc" where
  "not_subscriptable x = TypeError (quoted (type_name x) @ ascii '' object is not subscriptable'')"

definition not_iterable :: "jvalue \<Rightarrow> exc" where
  "not_iterable x = TypeError (quoted (type_name x) @ ascii '' object is not iterable'')"

text \<open>\<open>d.get(key, default)\<close>: only a dict has the method.\<close>

definition py_get :: "jvalue \<Rightarrow> str \<Rightarrow> jvalue \<Rightarrow> exc + jvalue" where
  "py_get x key dflt =
     (case x of
        JObject kvs \<Rightarrow> (case map_of kvs key of Some v \<Rightarrow> Inr v | None \<Rightarrow> Inr dflt)
      | _ \<Rightarrow> Inl (no_attribute x (ascii ''get'')))"

text \<open>
  \<open>xs[i]\<close> on a sequence of length \<open>n\<close>: an index from \<open>-n\<close> to \<open>n - 1\<close>, the negative ones
  counting from the end.
\<close>

definition py_index :: "'a list \<Rightarrow> int \<Rightarrow> 'a option" where
  "py_index xs i =
     (if 0 \<le> i \<and> i < int (length xs) then Some (xs ! nat i)
      else if i < 0 \<and> - int (length xs) \<le> i then Some (xs ! nat (int (length xs) + i))
      else None)"

text \<open>
  The subscript \<open>x[k]\<close>. A dict decoded from JSON has string keys only, so an integer
  is never one of its keys.
\<close>

definition py_getitem :: "jvalue \<Rightarrow> pykey \<Rightarrow> exc + jvalue" where
  "py_getitem x k =
     (case x of
        JObject kvs \<Rightarrow>
          (case k of
             KStr s \<Rightarrow> (case map_of kvs s of Some v \<Rightarrow> Inr v | None \<Rightarrow> Inl (KeyError k))
           | KInt i \<Rightarrow> Inl (KeyError k))
      | JArray xs \<Rightarrow>
          (case k of
             KInt i \<Rightarrow>
               (case py_index xs i of
                  Some v \<Rightarrow> Inr v
                | None \<Rightarrow> Inl (IndexError (ascii ''list index out of range'')))
           | KStr s \<Rightarrow> Inl (TypeError (ascii ''list indices must be integers or slices, not str'')))
      | JString cs \<Rightarrow>
          (case k of
             KInt i \<Rightarrow>
               (case py_index cs i of
                  Some c \<Rightarrow> Inr (JString [c])
                | None \<Rightarrow> Inl (IndexError (ascii ''string index out of range'')))
           | KStr s \<Rightarrow>
               Inl (TypeError (ascii ''string indices must be integers, not '' @ quoted (ascii ''str''))))
      | _ \<Rightarrow> Inl (not_subscriptable x))"

text \<open>
  What \<open>for page in x\<close> walks: the elements of a list, the keys of a dict, the characters
  of a string; nothing else that JSON decodes to is iterable.
\<close>

definition py_iter :: "jvalue \<Rightarrow> exc + jvalue list" where
  "py_iter x =
     (case x of
        JArray xs \<Rightarrow> Inr xs
      | JObject kvs \<Rightarrow> Inr (map (\<lambda>kv. JString (fst kv)) kvs)
      | JString cs \<Rightarrow> Inr (map (\<lambda>c. JString [c]) cs)
      | _ \<Rightarrow> Inl (not_iterable x))"

text \<open>
  The characters that \<open>str.strip()\<close> removes: those for which \<open>str.isspace\<close> holds.
\<close>

definition is_space :: "nat \<Rightarrow> bool" where
  "is_space c =
     ((9 \<le> c \<and> c \<le> 13) \<or> (28 \<le> c \<and> c \<le> 32) \<or> c = 133 \<or> c = 160 \<or> c = 5760
      \<or> (8192 \<le> c \<and> c \<le> 8202) \<or> c = 8232 \<or> c = 8233 \<or> c = 8239 \<or> c = 8287
      \<or> c = 12288)"

definition strip :: "str \<Rightarrow> str" where
  "strip s = rev (dropWhile is_space (rev (dropWhile is_space s)))"

text \<open>\<open>x.strip()\<close>: only a str has the method.\<close>

definition py_strip :: "jvalue \<Rightarrow> exc + str" where
  "py_strip x = (case x of JString s \<Rightarrow> Inr (strip s) | _ \<Rightarrow> Inl (no_attribute x (ascii ''strip'')))"

text \<open>\<open>str(n)\<close> of an integer: its decimal digits, 48 being the digit zero.\<close>

fun digits :: "nat \<Rightarrow> str" where
  "digits n = (if n < 10 then [48 + n] else digits (n div 10) @ [48 + n mod 10])"

declare digits.simps [simp del]

definition str_int :: "int \<Rightarrow> str" where
  "str_int i = (if i < 0 then 45 # digits (nat (- i)) else digits (nat i))"

text \<open>Four lower-case hexadecimal digits, as \<open>'\\ud800'\<close> shows a code point.\<close>

definition hex_digit :: "nat \<Rightarrow> nat" where
  "hex_digit d = (if d < 10 then 48 + d else 87 + d)"

definition hex4 :: "nat \<Rightarrow> str" where
  "hex4 c = map hex_digit [c div 4096 mod 16, c div 256 mod 16, c div 16 mod 16, c mod 16]"

text \<open>
  \<open>str(e)\<close>. A KeyError prints the \<open>repr\<close> of its key: the quoted key for the keys of
  the source, which hold no character that \<open>repr\<close> escapes. A UnicodeEncodeError of the
  UTF-8 codec names the character when the run is one character long and the positions
  of the run otherwise; 92 is the backslash.
\<close>

fun str_exc :: "exc \<Rightarrow> str" where
  "str_exc (Timeout m) = m"
| "str_exc (RequestException m r) = m"
| "str_exc (ValueError m) = m"
| "str_exc (KeyError (KStr s)) = quoted s"
| "str_exc (KeyError (KInt i)) = str_int i"
| "str_exc (IndexError m) = m"
| "str_exc (TypeError m) = m"
| "str_exc (AttributeError m) = m"
| "str_exc (UnicodeEncodeError c start stop) =
     quoted (ascii ''utf-8'') @ ascii '' codec can'' @ [39] @ ascii ''t encode ''
     @ (if stop = start + 1
        then ascii ''character '' @ quoted ([92, 117] @ hex4 c)
               @ ascii '' in position '' @ digits start
        else ascii ''characters in position '' @ digits start @ [45] @ digits (stop - 1))
     @ ascii '': surrogates not allowed''"
| "str_exc (OtherException m) = m"

section \<open>The requests library\<close>

text \<open>
  \<open>Response.raise_for_status()\<close> raises an HTTPError that carries the response for a
  status from 400 to 599 and returns otherwise; the text names the status, the reason
  and the address.
\<close>

definition http_error_msg :: "response \<Rightarrow> str" where
  "http_error_msg r =
     (if 400 \<le> status_code r \<and> status_code r < 500
      then str_int (status_code r) @ ascii '' Client Error: '' @ reason r
             @ ascii '' for url: '' @ url r
      else if 500 \<le> status_code r \<and> status_code r < 600
      then str_int (status_code r) @ ascii '' Server Error: '' @ reason r
             @ ascii '' for url: '' @ url r
      else [])"

definition raise_for_status :: "response \<Rightarrow> exc + unit" where
  "raise_for_status r =
     (if http_error_msg r \<noteq> [] then Inl (RequestException (http_error_msg r) (Some r))
      else Inr ())"



text \<open>The exception that a failing \<open>response.json()\<close> raises.\<close>

fun json_exc :: "json_error \<Rightarrow> exc" where
  "json_exc (RequestsJSONDecodeError m) = RequestException m None"
| "json_exc (JSONDecodeError m) = ValueError m"

section \<open>The handler\<close>

definition NOTION_CITY_PROPERTY_NAME :: str where
  "NOTION_CITY_PROPERTY_NAME = ascii ''City Name''"

text \<open>
  Lines 85 and 87: \<open>city_property['type'] == kind and city_property[kind]\<close>, as the
  \<open>if\<close> tests it. The second subscript is evaluated only when the kinds are equal.
\<close>

definition kind_with_payload :: "jvalue \<Rightarrow> str \<Rightarrow> exc + bool" where
  "kind_with_payload city_property kind =
     (case py_getitem city_property (KStr (ascii ''type'')) of
        Inl e \<Rightarrow> Inl e
      | Inr ty \<Rightarrow>
          if ty = JString kind then
            (case py_getitem city_property (KStr kind) of
               Inl e \<Rightarrow> Inl e
             | Inr payload \<Rightarrow> Inr (truthy payload))
          else Inr False)"

text \<open>Lines 86 and 88: \<open>city_property[kind][0]['plain_text']\<close>.\<close>

definition first_plain_text :: "jvalue \<Rightarrow> str \<Rightarrow> exc + jvalue" where
  "first_plain_text city_property kind =
     (case py_getitem city_property (KStr kind) of
        Inl e \<Rightarrow> Inl e
      | Inr payload \<Rightarrow>
          (case py_getitem payload (KInt 0) of
             Inl e \<Rightarrow> Inl e
           | Inr segment \<Rightarrow> py_getitem segment (KStr (ascii ''plain_text''))))"

text \<open>
  Lines 79 to 88: the value of \<open>city_name\<close> for one page; \<open>JNull\<close> is Python's \<open>None\<close>.
\<close>

definition extract_city_name :: "jvalue \<Rightarrow> exc + jvalue" where
  "extract_city_name page =
     (case py_get page (ascii ''properties'') (JObject []) of
        Inl e \<Rightarrow> Inl e
      | Inr properties \<Rightarrow>
          (case py_get properties NOTION_CITY_PROPERTY_NAME JNull of
             Inl e \<Rightarrow> Inl e
           | Inr city_property \<Rightarrow>
               if truthy city_property then
                 (case kind_with_payload city_property (ascii ''title'') of
                    Inl e \<Rightarrow> Inl e
                  | Inr True \<Rightarrow> first_plain_text city_property (ascii ''title'')
                  | Inr False \<Rightarrow>
                      (case kind_with_payload city_property (ascii ''rich_text'') of
                         Inl e \<Rightarrow> Inl e
                       | Inr True \<Rightarrow> first_plain_text city_property (ascii ''rich_text'')
                       | Inr False \<Rightarrow> Inr JNull))
               else Inr JNull))"

text \<open>The default of \<open>page.get('id', ...)\<close> on line 97.\<close>

definition unknown_id :: str where
  "unknown_id = [26410, 30693, 73, 68]"

text \<open>
  What \<open>print\<close> can write. The standard output encodes its text as UTF-8 with the
  error handler \<open>strict\<close>, the default of the interpreter in a UTF-8 locale: every code
  point has an encoding but the surrogates, U+D800 to U+DFFF, which a JSON text can put
  into a decoded string (\<open>"\\ud800"\<close>). (Under the handler \<open>surrogateescape\<close> of the C
  locale the surrogates U+DC80 to U+DCFF are written as well; a string without any
  surrogate is written under both.)
\<close>

definition is_surrogate :: "nat \<Rightarrow> bool" where
  "is_surrogate c = (55296 \<le> c \<and> c \<le> 57343)"

text \<open>The text of line 98 before \<open>page_id\<close>: six characters.\<close>

definition warning_prefix :: str where
  "warning_prefix = [35686, 21578, 65306, 39029, 38754, 32]"

text \<open>
  Line 98: the \<open>print\<close> of the warning, for the value of \<open>page_id\<close>. The formatted text
  holds \<open>str(page_id)\<close> and \<open>str(city_property)\<close> between literals of the source. A str
  is copied as it is; every other value is written by \<open>repr\<close>, which escapes a surrogate.
  On this line \<open>city_property\<close> is \<open>None\<close>, empty or a dict: a non-empty value that is no
  dict has raised on line 85. So the write fails exactly when \<open>page_id\<close> is a str with a
  surrogate, at the first run of surrogates in it.
\<close>

definition log_warning :: "jvalue \<Rightarrow> exc + unit" where
  "log_warning page_id =
     (case page_id of
        JString s \<Rightarrow>
          (case dropWhile (\<lambda>c. \<not> is_surrogate c) s of
             [] \<Rightarrow> Inr ()
           | c # rest \<Rightarrow>
               (let start = length warning_prefix + length (takeWhile (\<lambda>c. \<not> is_surrogate c) s)
                in Inl (UnicodeEncodeError c start
                          (start + 1 + length (takeWhile is_surrogate rest)))))
      | _ \<Rightarrow> Inr ())"

text \<open>
  Lines 79 to 98: one pass of the loop body over \<open>page\<close>, from the list \<open>cities\<close> to the
  list after it.
\<close>

definition page_step :: "jvalue \<Rightarrow> str list \<Rightarrow> exc + str list" where
  "page_step page cities =
     (case extract_city_name page of
        Inl e \<Rightarrow> Inl e
      | Inr city_name \<Rightarrow>
          (case (if truthy city_name
                 then (case py_strip city_name of Inl e \<Rightarrow> Inl e | Inr s \<Rightarrow> Inr (s \<noteq> []))
                 else Inr False) of
             Inl e \<Rightarrow> Inl e
           | Inr True \<Rightarrow>
               (case py_strip city_name of
                  Inl e \<Rightarrow> Inl e
                | Inr s \<Rightarrow> Inr (cities @ [s]))
           | Inr False \<Rightarrow>
               (case py_get page (ascii ''id'') (JString unknown_id) of
                  Inl e \<Rightarrow> Inl e
                | Inr page_id \<Rightarrow>
                    (case log_warning page_id of
                       Inl e \<Rightarrow> Inl e
                     | Inr u \<Rightarrow> Inr cities))))"

text \<open>Lines 97 and 98 on their own: what the warning for a page does.\<close>

definition warn_outcome :: "jvalue \<Rightarrow> exc + unit" where
  "warn_outcome page =
     (case py_get page (ascii ''id'') (JString unknown_id) of
        Inl e \<Rightarrow> Inl e
      | Inr page_id \<Rightarrow> log_warning page_id)"

text \<open>Lines 78 to 98: the loop; an exception ends it.\<close>

fun for_pages :: "jvalue list \<Rightarrow> str list \<Rightarrow> exc + str list" where
  "for_pages [] cities = Inr cities"
| "for_pages (page # pages) cities =
     (case page_step page cities of
        Inl e \<Rightarrow> Inl e
      | Inr cities' \<Rightarrow> for_pages pages cities')"

text \<open>
  Lines 71 to 101: the body of the \<open>try\<close>, up to the list that line 102 returns. The
  \<open>print\<close> of line 101 writes the list by \<open>repr\<close> and cannot fail.
\<close>

definition try_block :: "post_outcome \<Rightarrow> exc + str list" where
  "try_block outcome =
     (case outcome of
        Post_raises e \<Rightarrow> Inl e
      | Post_returns r \<Rightarrow>
          (case raise_for_status r of
             Inl e \<Rightarrow> Inl e
           | Inr u \<Rightarrow>
               (case json r of
                  Inl je \<Rightarrow> Inl (json_exc je)
                | Inr data \<Rightarrow>
                    (case py_get data (ascii ''results'') (JArray []) of
                       Inl e \<Rightarrow> Inl e
                     | Inr results \<Rightarrow>
                         (case py_iter results of
                            Inl e \<Rightarrow> Inl e
                          | Inr pages \<Rightarrow> for_pages pages [])))))"

text \<open>The texts of lines 106, 110, 116 and 120.\<close>

definition timeout_message :: str where
  "timeout_message =
     [35831, 27714, 32, 78, 111, 116, 105, 111, 110, 32, 65, 80, 73, 32, 36229, 26102]"

definition request_failed_prefix :: str where
  "request_failed_prefix =
     [35831, 27714, 32, 78, 111, 116, 105, 111, 110, 32, 65, 80, 73, 32, 22833, 36133, 58, 32]"

definition status_suffix :: "int \<Rightarrow> str" where
  "status_suffix code = [32, 40, 29366, 24577, 30721, 58, 32] @ str_int code @ [41]"

definition internal_error_prefix :: str where
  "internal_error_prefix = [26381, 21153, 22120, 20869, 37096, 38169, 35823, 58, 32]"

text \<open>
  What the view returns to Flask: the pair of \<open>jsonify(...)\<close> and the status, 200
  where the source gives none.
\<close>

type_synonym flask_response = "jvalue \<times> int"

definition error_body :: "jvalue \<Rightarrow> jvalue" where
  "error_body message = JObject [(ascii ''error'', message)]"

text \<open>
  Lines 107 to 117, the handler of a RequestException \<open>e\<close> with text \<open>m\<close> and response
  \<open>resp\<close>. An exception raised here is outside the \<open>try\<close> and leaves the view.
\<close>

definition on_request_exception :: "str \<Rightarrow> response option \<Rightarrow> exc + flask_response" where
  "on_request_exception m resp =
     (let error_message = request_failed_prefix @ m in
      case resp of
        None \<Rightarrow> Inr (error_body (JString error_message), 500)
      | Some r \<Rightarrow>
          (case json r of
             Inl je \<Rightarrow>
               Inr (error_body (JString (error_message @ status_suffix (status_code r))),
                    status_code r)
           | Inr notion_error \<Rightarrow>
               (case py_get notion_error (ascii ''message'') (JString error_message) of
                  Inl e \<Rightarrow> Inl e
                | Inr msg \<Rightarrow> Inr (error_body msg, status_code r))))"

text \<open>
  Lines 53 to 120: the view \<open>get_cities\<close>, from what the outbound call does to the
  response it returns (\<open>Inr\<close>) or the exception that leaves it (\<open>Inl\<close>). The \<open>except\<close>
  clauses are tried in the source's order.
\<close>

definition get_cities :: "post_outcome \<Rightarrow> exc + flask_response" where
  "get_cities outcome =
     (case try_block outcome of
        Inr cities \<Rightarrow> Inr (JArray (map JString cities), 200)
      | Inl e \<Rightarrow>
          (case e of
             Timeout m \<Rightarrow> Inr (error_body (JString timeout_message), 504)
           | RequestException m resp \<Rightarrow> on_request_exception m resp
           | _ \<Rightarrow> Inr (error_body (JString (internal_error_prefix @ str_exc e)), 500)))"

section \<open>Startup of the module\<close>

text \<open>
  Lines 15 to 52. \<open>os.environ.get\<close> gives \<open>None\<close> for a variable that is not set;
  \<open>not x\<close> holds for \<open>None\<close> and for the empty string. \<open>exit(1)\<close> ends the import with
  the exit status 1, before line 52 registers the route and before line 127 runs the
  server.
\<close>

record app =
  api_token :: str
  database_id :: str
  allowed_origins :: "str list"
  routes :: "str list"

definition module_startup :: "(str \<Rightarrow> str option) \<Rightarrow> int + app" where
  "module_startup environ =
     (let NOTION_API_TOKEN = environ (ascii ''NOTION_API_TOKEN'');
          NOTION_DATABASE_ID = environ (ascii ''NOTION_DATABASE_ID'');
          vercel_url = environ (ascii ''VERCEL_URL'');
          origins =
            (case vercel_url of
               None \<Rightarrow> []
             | Some u \<Rightarrow> if u = [] then [] else [ascii ''https://'' @ u])
            @ [ascii ''http://localhost:5173'']
      in case NOTION_API_TOKEN of
           None \<Rightarrow> Inl 1
         | Some token \<Rightarrow>
             if token = [] then Inl 1
             else
               (case NOTION_DATABASE_ID of
                  None \<Rightarrow> Inl 1
                | Some dbid \<Rightarrow>
                    if dbid = [] then Inl 1
                    else Inr \<lparr> api_token = token,
                               database_id = dbid,
                               allowed_origins = origins,
                               routes = [ascii ''/api/get-cities''] \<rparr>))"

section \<open>The claims in their own words\<close>

text \<open>
  The record of claim C1 that counts: it has a property named \<open>City Name\<close>, of kind
  \<open>title\<close> or \<open>rich_text\<close>, with a non-empty segment list whose first segment's
  plain-text field is non-empty after trimming. These definitions follow the claim and
  not the code; \<open>spec_valid_name\<close> is the trimmed name of such a record.
\<close>

definition spec_city_name_property :: "jvalue \<Rightarrow> jvalue option" where
  "spec_city_name_property page =
     (case page of
        JObject kvs \<Rightarrow>
          (case map_of kvs (ascii ''properties'') of
             Some (JObject props) \<Rightarrow> map_of props (ascii ''City Name'')
           | _ \<Rightarrow> None)
      | _ \<Rightarrow> None)"

definition spec_text_segments :: "jvalue \<Rightarrow> jvalue list option" where
  "spec_text_segments cnp =
     (case cnp of
        JObject kvs \<Rightarrow>
          (case map_of kvs (ascii ''type'') of
             Some (JString kind) \<Rightarrow>
               if kind = ascii ''title'' \<or> kind = ascii ''rich_text'' then
                 (case map_of kvs kind of Some (JArray segments) \<Rightarrow> Some segments | _ \<Rightarrow> None)
               else None
           | _ \<Rightarrow> None)
      | _ \<Rightarrow> None)"

definition spec_plain_text :: "jvalue \<Rightarrow> str option" where
  "spec_plain_text segment =
     (case segment of
        JObject kvs \<Rightarrow>
          (case map_of kvs (ascii ''plain_text'') of Some (JString t) \<Rightarrow> Some t | _ \<Rightarrow> None)
      | _ \<Rightarrow> None)"

definition spec_valid_name :: "jvalue \<Rightarrow> str option" where
  "spec_valid_name page =
     (case spec_city_name_property page of
        None \<Rightarrow> None
      | Some cnp \<Rightarrow>
          (case spec_text_segments cnp of
             None \<Rightarrow> None
           | Some [] \<Rightarrow> None
           | Some (segment # rest) \<Rightarrow>
               (case spec_plain_text segment of
                  None \<Rightarrow> None
                | Some t \<Rightarrow> if strip t = [] then None else Some (strip t))))"

definition spec_has_valid_name :: "jvalue \<Rightarrow> bool" where
  "spec_has_valid_name page = (spec_valid_name page \<noteq> None)"

text \<open>
  A string with no whitespace at either end, and none that is empty (claim C3).
\<close>

definition trimmed :: "str \<Rightarrow> bool" where
  "trimmed s = (s \<noteq> [] \<and> \<not> is_space (hd s) \<and> \<not> is_space (last s))"

text \<open>
  A first segment without a \<open>plain_text\<close> key (claim C10): an object that lacks the key,
  or a value that is no object and so has no key at all.
\<close>

definition lacks_plain_text :: "jvalue \<Rightarrow> bool" where
  "lacks_plain_text segment =
     (case segment of JObject kvs \<Rightarrow> map_of kvs (ascii ''plain_text'') = None | _ \<Rightarrow> True)"

text \<open>
  The pass over a record raises (no list of cities comes out of it).
\<close>

definition page_raises :: "jvalue \<Rightarrow> bool" where
  "page_raises page = isl (page_step page [])"

text \<open>
  The records on which the pass does not raise, in terms of the data. A value is usable
  as a name when it is a string or is empty (\<open>None\<close>, \<open>false\<close>, zero, an empty list or
  object). A segment has its shape when it is an object with a usable \<open>plain_text\<close>; a
  payload when it is empty or a list that begins with such a segment; a property when it
  is empty, or an object with a \<open>type\<close> that, for the kinds \<open>title\<close> and \<open>rich_text\<close>, has
  a payload of that shape under the key of its kind; a record when it is an object whose
  \<open>properties\<close>, if present, is an object whose \<open>City Name\<close>, if present, has its shape.
  The identifier of a record can be logged when it is no string that holds a surrogate.
  A record is well formed when it has its shape and, if it gives no name, an identifier
  that can be logged.
\<close>

definition spec_text_or_empty :: "jvalue \<Rightarrow> bool" where
  "spec_text_or_empty v = (case v of JString t \<Rightarrow> True | _ \<Rightarrow> \<not> truthy v)"

definition spec_shaped_segment :: "jvalue \<Rightarrow> bool" where
  "spec_shaped_segment segment =
     (case segment of
        JObject kvs \<Rightarrow>
          (case map_of kvs (ascii ''plain_text'') of
             Some v \<Rightarrow> spec_text_or_empty v
           | None \<Rightarrow> False)
      | _ \<Rightarrow> False)"

definition spec_shaped_payload :: "jvalue \<Rightarrow> bool" where
  "spec_shaped_payload payload =
     (case payload of
        JArray (segment # rest) \<Rightarrow> spec_shaped_segment segment
      | _ \<Rightarrow> \<not> truthy payload)"

definition spec_shaped_kind :: "(str \<times> jvalue) list \<Rightarrow> str \<Rightarrow> bool" where
  "spec_shaped_kind kvs kind =
     (case map_of kvs kind of Some payload \<Rightarrow> spec_shaped_payload payload | None \<Rightarrow> False)"

definition spec_shaped_property :: "jvalue \<Rightarrow> bool" where
  "spec_shaped_property cp =
     (case cp of
        JObject kvs \<Rightarrow>
          (case map_of kvs (ascii ''type'') of
             None \<Rightarrow> kvs = []
           | Some ty \<Rightarrow>
               if ty = JString (ascii ''title'') then spec_shaped_kind kvs (ascii ''title'')
               else if ty = JString (ascii ''rich_text'') then spec_shaped_kind kvs (ascii ''rich_text'')
               else True)
      | _ \<Rightarrow> \<not> truthy cp)"

definition spec_shaped :: "jvalue \<Rightarrow> bool" where
  "spec_shaped page =
     (case page of
        JObject pg \<Rightarrow>
          (case map_of pg (ascii ''properties'') of
             None \<Rightarrow> True
           | Some (JObject props) \<Rightarrow>
               (case map_of props (ascii ''City Name'') of
                  None \<Rightarrow> True
                | Some cp \<Rightarrow> spec_shaped_property cp)
           | Some _ \<Rightarrow> False)
      | _ \<Rightarrow> False)"

definition spec_id_prints :: "jvalue \<Rightarrow> bool" where
  "spec_id_prints page =
     (case page of
        JObject pg \<Rightarrow>
          (case map_of pg (ascii ''id'') of
             Some (JString s) \<Rightarrow> \<not> list_ex is_surrogate s
           | _ \<Rightarrow> True)
      | _ \<Rightarrow> True)"

definition spec_well_formed :: "jvalue \<Rightarrow> bool" where
  "spec_well_formed page = (spec_shaped page \<and> (spec_has_valid_name page \<or> spec_id_prints page))"

text \<open>
  Lines 85 to 88 on their own: the value that a non-empty property gives to \<open>city_name\<close>.
\<close>

definition property_name :: "jvalue \<Rightarrow> exc + jvalue" where
  "property_name city_property =
     (case kind_with_payload city_property (ascii ''title'') of
        Inl e \<Rightarrow> Inl e
      | Inr True \<Rightarrow> first_plain_text city_property (ascii ''title'')
      | Inr False \<Rightarrow>
          (case kind_with_payload city_property (ascii ''rich_text'') of
             Inl e \<Rightarrow> Inl e
           | Inr True \<Rightarrow> first_plain_text city_property (ascii ''rich_text'')
           | Inr False \<Rightarrow> Inr JNull))"

text \<open>
  The classes that the \<open>except\<close> clauses test: a Timeout is a RequestException too, and
  is caught first.
\<close>

fun is_Timeout :: "exc \<Rightarrow> bool" where
  "is_Timeout (Timeout m) = True"
| "is_Timeout e = False"

fun is_RequestException :: "exc \<Rightarrow> bool" where
  "is_RequestException (Timeout m) = True"
| "is_RequestException (RequestException m resp) = True"
| "is_RequestException e = False"

text \<open>
  The exceptions that the interpreter raises from a subscript, a method call or an
  iteration on the wrong type of value, or from a \<open>print\<close>.
\<close>

definition interpreter_error :: "exc \<Rightarrow> bool" where
  "interpreter_error e =
     (case e of
        KeyError k \<Rightarrow> True
      | IndexError m \<Rightarrow> True
      | TypeError m \<Rightarrow> True
      | AttributeError m \<Rightarrow> True
      | UnicodeEncodeError c start stop \<Rightarrow> True
      | _ \<Rightarrow> False)"

text \<open>
  The name that a value of \<open>city_name\<close> contributes, if any.
\<close>

definition name_of_value :: "jvalue \<Rightarrow> str option" where
  "name_of_value v = (case v of JString t \<Rightarrow> if strip t = [] then None else Some (strip t) | _ \<Rightarrow> None)"

section \<open>Example inputs\<close>

text \<open>
  Upstream pages in the layout of the database query: the one of the specification's
  example (\<open>" Tokyo "\<close> as a title), a property of kind \<open>number\<close>, a text of blanks, a
  property without \<open>type\<close>, an empty property object, a title kind without its payload,
  a title with no segment, and a page without the property.
\<close>

definition city_page :: "string \<Rightarrow> jvalue \<Rightarrow> jvalue" where
  "city_page ident city_property =
     JObject [(ascii ''id'', JString (ascii ident)),
              (ascii ''properties'', JObject [(ascii ''City Name'', city_property)])]"

definition text_property :: "string \<Rightarrow> string \<Rightarrow> jvalue" where
  "text_property kind t =
     JObject [(ascii ''type'', JString (ascii kind)),
              (ascii kind, JArray [JObject [(ascii ''plain_text'', JString (ascii t))]])]"

definition tokyo_page :: jvalue where
  "tokyo_page = city_page ''1'' (text_property ''title'' '' Tokyo '')"

definition number_page :: jvalue where
  "number_page =
     city_page ''2'' (JObject [(ascii ''type'', JString (ascii ''number'')), (ascii ''number'', JInt 5)])"

definition blank_page :: jvalue where
  "blank_page = city_page ''3'' (text_property ''rich_text'' ''  '')"

definition untyped_page :: jvalue where
  "untyped_page = city_page ''4'' (JObject [(ascii ''title'', JArray [])])"

definition empty_property_page :: jvalue where
  "empty_property_page = city_page ''5'' (JObject [])"

definition no_payload_page :: jvalue where
  "no_payload_page = city_page ''6'' (JObject [(ascii ''type'', JString (ascii ''title''))])"

definition empty_title_page :: jvalue where
  "empty_title_page =
     city_page ''7'' (JObject [(ascii ''type'', JString (ascii ''title'')), (ascii ''title'', JArray [])])"

definition no_property_page :: jvalue where
  "no_property_page = JObject [(ascii ''id'', JString (ascii ''8'')), (ascii ''properties'', JObject [])]"

definition results_body :: "jvalue list \<Rightarrow> (str \<times> jvalue) list" where
  "results_body pages = [(ascii ''object'', JString (ascii ''list'')), (ascii ''results'', JArray pages)]"

definition upstream :: "int \<Rightarrow> string \<Rightarrow> jvalue \<Rightarrow> response" where
  "upstream code why body =
     \<lparr> status_code = code, reason = ascii why,
       url = ascii ''https://api.notion.com/v1/databases/db/query'', json = Inr body \<rparr>"

text \<open>
  A page without properties whose identifier is the lone surrogate U+D800, as the JSON
  text \<open>"\\ud800"\<close> decodes; and the text of the library's read timeout.
\<close>

definition surrogate_page :: jvalue where
  "surrogate_page = JObject [(ascii ''id'', JString [55296]), (ascii ''properties'', JObject [])]"


section \<open>Properties of the interpreter operations\<close>

lemma ascii_eq_iff [simp]: "ascii s = ascii t \<longleftrightarrow> s = t"
proof -
  have "inj (of_char :: char \<Rightarrow> nat)"
    by (rule injI) simp
  then show ?thesis
    unfolding ascii_def by (simp add: inj_map_eq_map)
qed

lemma ascii_Nil [simp]: "ascii s = [] \<longleftrightarrow> s = []"
  by (simp add: ascii_def)

lemma strip_ends:
  assumes "strip s \<noteq> []"
  shows "\<not> is_space (hd (strip s)) \<and> \<not> is_space (last (strip s))"
proof -
  let ?d = "dropWhile is_space s"
  let ?e = "dropWhile is_space (rev ?d)"
  have e: "?e \<noteq> []" using assms by (simp add: strip_def)
  then have last_ok: "\<not> is_space (hd ?e)" by (rule hd_dropWhile)
  have "last (strip s) = hd ?e" using e by (simp add: strip_def last_rev)
  moreover
  have d: "?d \<noteq> []"
  proof
    assume a: "?d = []"
    have "?e = []" unfolding a by simp
    with e show False by blast
  qed
  then have hd_d: "\<not> is_space (hd ?d)" by (rule hd_dropWhile)
  have "hd (strip s) = last ?e" using e by (simp add: strip_def hd_rev)
  moreover have "last ?e = last (rev ?d)"
    using e by (metis append_Nil2 last_appendR takeWhile_dropWhile_id)
  moreover have "last (rev ?d) = hd ?d" using d by (simp add: last_rev)
  ultimately show ?thesis using last_ok hd_d by simp
qed

lemma strip_Nil_iff: "strip s = [] \<longleftrightarrow> (\<forall>c\<in>set s. is_space c)"
proof
  assume "strip s = []"
  then have "dropWhile is_space (rev (dropWhile is_space s)) = []" by (simp add: strip_def)
  then have "\<forall>c\<in>set (rev (dropWhile is_space s)). is_space c" by (simp add: dropWhile_eq_Nil_conv)
  then have all: "\<forall>c\<in>set (dropWhile is_space s). is_space c" by simp
  have "dropWhile is_space s = []"
  proof (rule ccontr)
    assume n: "dropWhile is_space s \<noteq> []"
    then have "\<not> is_space (hd (dropWhile is_space s))" by (rule hd_dropWhile)
    moreover have "hd (dropWhile is_space s) \<in> set (dropWhile is_space s)" using n by simp
    ultimately show False using all by blast
  qed
  then show "\<forall>c\<in>set s. is_space c" by (simp add: dropWhile_eq_Nil_conv)
next
  assume "\<forall>c\<in>set s. is_space c"
  then have d: "dropWhile is_space s = []" by simp
  show "strip s = []" unfolding strip_def d by simp
qed

lemma py_get_JObject [simp]:
  "py_get (JObject kvs) k d = Inr (case map_of kvs k of Some v \<Rightarrow> v | None \<Rightarrow> d)"
  by (simp add: py_get_def split: option.splits)

lemma py_get_Inr_JObject: "py_get x k d = Inr v \<Longrightarrow> \<exists>kvs. x = JObject kvs"
  by (cases x) (simp_all add: py_get_def)

lemma py_getitem_JObject [simp]:
  "py_getitem (JObject kvs) (KStr s) = (case map_of kvs s of Some v \<Rightarrow> Inr v | None \<Rightarrow> Inl (KeyError (KStr s)))"
  by (simp add: py_getitem_def)

lemma py_getitem_str_Inr: "py_getitem x (KStr s) = Inr v \<Longrightarrow> \<exists>kvs. x = JObject kvs \<and> map_of kvs s = Some v"
  by (cases x) (simp_all add: py_getitem_def not_subscriptable_def split: option.splits)

lemma py_index_0 [simp]: "py_index xs 0 = (case xs of [] \<Rightarrow> None | x # rest \<Rightarrow> Some x)"
  by (cases xs) (simp_all add: py_index_def)

lemma py_getitem_0_truthy:
  "truthy x \<Longrightarrow> py_getitem x (KInt 0) = Inr v \<Longrightarrow> (\<exists>xs. x = JArray (v # xs)) \<or> (\<exists>c cs. x = JString (c # cs) \<and> v = JString [c])"
  by (cases x) (auto simp add: py_getitem_def not_subscriptable_def split: list.splits)

lemma first_plain_text_Inr:
  assumes "first_plain_text cp kind = Inr v" "kind_with_payload cp kind = Inr True"
  shows "\<exists>kvs seg segs sg. cp = JObject kvs \<and> map_of kvs (ascii ''type'') = Some (JString kind)
      \<and> map_of kvs kind = Some (JArray (seg # segs)) \<and> seg = JObject sg \<and> map_of sg (ascii ''plain_text'') = Some v"
proof -
  from assms(2) obtain ty where ty: "py_getitem cp (KStr (ascii ''type'')) = Inr ty"
    by (auto simp: kind_with_payload_def split: sum.splits)
  then obtain kvs where cp: "cp = JObject kvs" and mty: "map_of kvs (ascii ''type'') = Some ty"
    by (auto dest: py_getitem_str_Inr)
  from assms(2) ty have k: "ty = JString kind"
    by (auto simp: kind_with_payload_def split: sum.splits if_splits)
  from assms(2) ty k cp obtain payload where p: "map_of kvs kind = Some payload" "truthy payload"
    by (auto simp: kind_with_payload_def split: sum.splits if_splits option.splits)
  from assms(1) cp p obtain seg where seg: "py_getitem payload (KInt 0) = Inr seg"
     "py_getitem seg (KStr (ascii ''plain_text'')) = Inr v"
    by (auto simp: first_plain_text_def split: sum.splits)
  from seg(2) obtain sg where sg: "seg = JObject sg" "map_of sg (ascii ''plain_text'') = Some v"
    by (auto dest: py_getitem_str_Inr)
  from py_getitem_0_truthy [OF p(2) seg(1)] sg obtain segs where "payload = JArray (seg # segs)"
    by auto
  with cp mty k p sg show ?thesis by auto
qed

lemma kind_with_payload_True_kind:
  "kind_with_payload cp kind = Inr True \<Longrightarrow> \<exists>kvs. cp = JObject kvs \<and> map_of kvs (ascii ''type'') = Some (JString kind)"
  by (auto simp: kind_with_payload_def split: sum.splits if_splits dest: py_getitem_str_Inr)

lemma kind_with_payload_False:
  assumes "kind_with_payload cp kind = Inr False"
  shows "\<exists>kvs ty. cp = JObject kvs \<and> map_of kvs (ascii ''type'') = Some ty
      \<and> (ty = JString kind \<longrightarrow> (\<exists>payload. map_of kvs kind = Some payload \<and> \<not> truthy payload))"
  using assms
  by (auto simp: kind_with_payload_def split: sum.splits if_splits dest!: py_getitem_str_Inr)

lemma not_truthy_JArray: "\<not> truthy (JArray xs) \<Longrightarrow> xs = []"
  by simp

lemma extract_valid_name:
  assumes "extract_city_name page = Inr v"
  shows "spec_valid_name page = name_of_value v"
proof -
  from assms obtain properties where props: "py_get page (ascii ''properties'') (JObject []) = Inr properties"
    by (auto simp: extract_city_name_def split: sum.splits)
  then obtain pg where page: "page = JObject pg" by (auto dest: py_get_Inr_JObject)
  from assms props obtain city_property where cp: "py_get properties NOTION_CITY_PROPERTY_NAME JNull = Inr city_property"
    by (auto simp: extract_city_name_def split: sum.splits)
  then obtain ps where ps: "properties = JObject ps" by (auto dest: py_get_Inr_JObject)
  have cnp: "spec_city_name_property page = map_of ps (ascii ''City Name'')"
    using props page ps by (auto simp: spec_city_name_property_def split: option.splits)
  have cpv: "city_property = (case map_of ps (ascii ''City Name'') of Some x \<Rightarrow> x | None \<Rightarrow> JNull)"
    using cp ps by (simp add: NOTION_CITY_PROPERTY_NAME_def)
  show ?thesis
  proof (cases "truthy city_property")
    case False
    with assms props cp have v: "v = JNull" by (simp add: extract_city_name_def)
    have "spec_text_segments city_property = None"
      using False by (cases city_property) (auto simp: spec_text_segments_def)
    then show ?thesis using v cnp cpv
      by (auto simp: spec_valid_name_def name_of_value_def spec_text_segments_def split: option.splits)
  next
    case True
    then obtain x where some: "map_of ps (ascii ''City Name'') = Some city_property"
      using cpv by (auto split: option.splits)
    have ex: "(case kind_with_payload city_property (ascii ''title'') of
                 Inl e \<Rightarrow> Inl e
               | Inr True \<Rightarrow> first_plain_text city_property (ascii ''title'')
               | Inr False \<Rightarrow>
                   (case kind_with_payload city_property (ascii ''rich_text'') of
                      Inl e \<Rightarrow> Inl e
                    | Inr True \<Rightarrow> first_plain_text city_property (ascii ''rich_text'')
                    | Inr False \<Rightarrow> Inr JNull)) = Inr v"
      using assms props cp True by (simp add: extract_city_name_def)
    show ?thesis
    proof (cases "kind_with_payload city_property (ascii ''title'')")
      case (Inl e)
      with ex show ?thesis by simp
    next
      case (Inr b)
      show ?thesis
      proof (cases b)
        case True
        with Inr ex have f: "first_plain_text city_property (ascii ''title'') = Inr v" by simp
        from first_plain_text_Inr [OF f] Inr True show ?thesis
          using cnp some
          by (auto simp: spec_valid_name_def name_of_value_def spec_text_segments_def spec_plain_text_def split: jvalue.splits)
      next
        case False
        from Inr False have kt: "kind_with_payload city_property (ascii ''title'') = Inr False" by simp
        note t = kind_with_payload_False [OF kt]
        with Inr ex have ex2: "(case kind_with_payload city_property (ascii ''rich_text'') of
                         Inl e \<Rightarrow> Inl e
                       | Inr True \<Rightarrow> first_plain_text city_property (ascii ''rich_text'')
                       | Inr False \<Rightarrow> Inr JNull) = Inr v" using False by simp
        show ?thesis
        proof (cases "kind_with_payload city_property (ascii ''rich_text'')")
          case (Inl e)
          with ex2 show ?thesis by simp
        next
          case (Inr b2)
          show ?thesis
          proof (cases b2)
            case True
            with Inr ex2 have f: "first_plain_text city_property (ascii ''rich_text'') = Inr v" by simp
            from first_plain_text_Inr [OF f] Inr True show ?thesis
              using cnp some
              by (auto simp: spec_valid_name_def name_of_value_def spec_text_segments_def spec_plain_text_def split: jvalue.splits)
          next
            case False
            from Inr False have kr: "kind_with_payload city_property (ascii ''rich_text'') = Inr False" by simp
            note r = kind_with_payload_False [OF kr]
            from ex2 Inr False have v: "v = JNull" by simp
            from t r have "spec_text_segments city_property = None \<or> spec_text_segments city_property = Some []"
              by (auto simp: spec_text_segments_def split: option.splits jvalue.splits)
            then show ?thesis using v cnp some
              by (auto simp: spec_valid_name_def name_of_value_def)
          qed
        qed
      qed
    qed
  qed
qed

lemma py_get_Inl: "py_get x k d = Inl e \<Longrightarrow> interpreter_error e"
  by (cases x) (auto simp: py_get_def no_attribute_def interpreter_error_def split: option.splits)

lemma py_getitem_Inl: "py_getitem x k = Inl e \<Longrightarrow> interpreter_error e"
  by (cases x; cases k)
     (auto simp: py_getitem_def not_subscriptable_def interpreter_error_def split: option.splits)

lemma py_strip_Inl: "py_strip x = Inl e \<Longrightarrow> interpreter_error e"
  by (cases x) (auto simp: py_strip_def no_attribute_def interpreter_error_def)

lemma kind_with_payload_Inl: "kind_with_payload cp kind = Inl e \<Longrightarrow> interpreter_error e"
  by (auto simp: kind_with_payload_def split: sum.splits if_splits dest: py_getitem_Inl)

lemma first_plain_text_Inl: "first_plain_text cp kind = Inl e \<Longrightarrow> interpreter_error e"
  by (auto simp: first_plain_text_def split: sum.splits dest: py_getitem_Inl)

lemma extract_city_name_Inl: "extract_city_name page = Inl e \<Longrightarrow> interpreter_error e"
  by (auto simp: extract_city_name_def
      split: sum.splits if_splits bool.splits
      dest: py_get_Inl kind_with_payload_Inl first_plain_text_Inl)

lemma extract_city_name_page: "extract_city_name page = Inr v \<Longrightarrow> \<exists>pg. page = JObject pg"
  by (auto simp: extract_city_name_def split: sum.splits dest: py_get_Inr_JObject)

lemma page_step_extract_Inl: "extract_city_name page = Inl e \<Longrightarrow> page_step page cities = Inl e"
  by (simp add: page_step_def)

lemma log_warning_Inl: "log_warning v = Inl e \<Longrightarrow> \<exists>c a b. e = UnicodeEncodeError c a b"
  by (cases v) (auto simp: log_warning_def Let_def split: list.splits)

lemma log_warning_ok:
  "log_warning v = Inr () \<longleftrightarrow> (case v of JString s \<Rightarrow> \<not> list_ex is_surrogate s | _ \<Rightarrow> True)"
proof (cases v)
  case (JString s)
  show ?thesis
  proof (cases "dropWhile (\<lambda>c. \<not> is_surrogate c) s")
    case Nil
    have w: "log_warning v = Inr ()" by (simp add: JString log_warning_def Nil)
    from Nil have "\<forall>x\<in>set s. \<not> is_surrogate x" by simp
    then have "\<not> list_ex is_surrogate s" by (simp add: list_ex_iff)
    then show ?thesis using JString w by simp
  next
    case (Cons c rest)
    have w: "log_warning v \<noteq> Inr ()" by (simp add: JString log_warning_def Cons Let_def)
    from Cons have "\<not> (\<forall>x\<in>set s. \<not> is_surrogate x)"
      by (metis dropWhile_eq_Nil_conv list.distinct(1))
    then have "list_ex is_surrogate s" by (simp add: list_ex_iff)
    then show ?thesis using JString w by simp
  qed
qed (simp_all add: log_warning_def)

lemma ascii_no_surrogate: "\<not> list_ex is_surrogate (ascii s)"
proof -
  have "\<not> is_surrogate (of_char c)" for c :: char
    using nat_of_char_less_256 [of c] unfolding is_surrogate_def by arith
  then show ?thesis by (simp add: list_ex_iff ascii_def)
qed

lemma city_page_prints: "spec_id_prints (city_page ident cp)"
  by (simp add: spec_id_prints_def city_page_def ascii_no_surrogate)

lemma unknown_id_prints: "\<not> list_ex is_surrogate unknown_id"
  by (simp add: unknown_id_def is_surrogate_def)

lemma warn_outcome_prints: "warn_outcome (JObject pg) = Inr () \<longleftrightarrow> spec_id_prints (JObject pg)"
  by (simp add: warn_outcome_def log_warning_ok spec_id_prints_def unknown_id_prints
      split: option.splits jvalue.splits)

lemma warn_outcome_Inl: "warn_outcome page = Inl e \<Longrightarrow> interpreter_error e"
  by (auto simp: warn_outcome_def interpreter_error_def
      split: sum.splits dest: py_get_Inl log_warning_Inl)

lemma page_step_warns:
  assumes "extract_city_name page = Inr v" "name_of_value v = None" "\<not> truthy v \<or> (\<exists>t. v = JString t)"
  shows "page_step page cities = (case warn_outcome page of Inl e \<Rightarrow> Inl e | Inr u \<Rightarrow> Inr cities)"
  using assms
  by (auto simp: page_step_def warn_outcome_def name_of_value_def py_strip_def
      split: if_splits sum.splits)

lemma page_step_skip:
  assumes "extract_city_name page = Inr v" "name_of_value v = None" "\<not> truthy v \<or> (\<exists>t. v = JString t)"
    and "spec_id_prints page"
  shows "page_step page cities = Inr cities"
proof -
  from assms(1) obtain pg where pg: "page = JObject pg" by (auto dest: extract_city_name_page)
  with assms(4) have "warn_outcome page = Inr ()" by (simp add: warn_outcome_prints)
  with page_step_warns [OF assms(1-3)] show ?thesis by simp
qed

lemma page_step_take:
  assumes "extract_city_name page = Inr (JString t)" "strip t \<noteq> []"
  shows "page_step page cities = Inr (cities @ [strip t])"
proof -
  from assms(2) have "t \<noteq> []" by (auto simp: strip_def)
  with assms show ?thesis by (simp add: page_step_def py_strip_def)
qed

lemma page_step_strip_Inl:
  assumes "extract_city_name page = Inr v" "truthy v" "py_strip v = Inl e"
  shows "page_step page cities = Inl e"
  using assms by (simp add: page_step_def)

lemma name_of_value_falsy: "\<not> truthy v \<Longrightarrow> name_of_value v = None"
  by (cases v) (auto simp: name_of_value_def strip_def)

lemma py_strip_cases: "(\<exists>t. v = JString t) \<or> (\<exists>e. py_strip v = Inl e)"
  by (cases v) (auto simp: py_strip_def)

lemma page_step_cases:
  "(\<exists>e. extract_city_name page = Inl e \<and> (\<forall>cities. page_step page cities = Inl e))
   \<or> (\<exists>v e. extract_city_name page = Inr v \<and> truthy v \<and> py_strip v = Inl e
          \<and> (\<forall>cities. page_step page cities = Inl e))
   \<or> (\<exists>v. extract_city_name page = Inr v \<and> name_of_value v = None
          \<and> (\<not> truthy v \<or> (\<exists>t. v = JString t))
          \<and> warn_outcome page = Inr ()
          \<and> (\<forall>cities. page_step page cities = Inr cities))
   \<or> (\<exists>v e. extract_city_name page = Inr v \<and> name_of_value v = None
          \<and> (\<not> truthy v \<or> (\<exists>t. v = JString t))
          \<and> warn_outcome page = Inl e
          \<and> (\<forall>cities. page_step page cities = Inl e))
   \<or> (\<exists>t. extract_city_name page = Inr (JString t) \<and> strip t \<noteq> []
          \<and> (\<forall>cities. page_step page cities = Inr (cities @ [strip t])))"
proof (cases "extract_city_name page")
  case (Inl e)
  then show ?thesis by (simp add: page_step_extract_Inl)
next
  case (Inr v)
  have warns: ?thesis if n: "name_of_value v = None" and u: "\<not> truthy v \<or> (\<exists>t. v = JString t)"
  proof (cases "warn_outcome page")
    case (Inl e)
    with page_step_warns [OF Inr n u] have "\<forall>cities. page_step page cities = Inl e" by simp
    with Inr n u Inl show ?thesis by blast
  next
    case (Inr w)
    with page_step_warns [OF \<open>extract_city_name page = Inr v\<close> n u]
    have "\<forall>cities. page_step page cities = Inr cities" by simp
    with \<open>extract_city_name page = Inr v\<close> n u Inr show ?thesis by simp
  qed
  show ?thesis
  proof (cases "truthy v")
    case False
    then show ?thesis using warns [OF name_of_value_falsy [OF False]] by simp
  next
    case True
    from py_strip_cases [of v] show ?thesis
    proof
      assume "\<exists>t. v = JString t"
      then obtain t where t: "v = JString t" by blast
      show ?thesis
      proof (cases "strip t = []")
        case True
        then have n: "name_of_value v = None" by (simp add: t name_of_value_def)
        from warns [OF n] t show ?thesis by simp
      next
        case False
        from page_step_take [OF Inr [unfolded t] False] Inr t False show ?thesis by simp
      qed
    next
      assume "\<exists>e. py_strip v = Inl e"
      then obtain e where e: "py_strip v = Inl e" by blast
      from page_step_strip_Inl [OF Inr True e] Inr True e show ?thesis by simp
    qed
  qed
qed

lemma page_step_Inl: "page_step page cities = Inl e \<Longrightarrow> interpreter_error e"
  using page_step_cases [of page]
  by (auto dest: extract_city_name_Inl py_strip_Inl warn_outcome_Inl)

lemma page_step_raises: "page_step page cities = Inl e \<Longrightarrow> page_step page cities' = Inl e"
  using page_step_cases [of page] by auto

lemma page_step_Inr:
  assumes "page_step page cities = Inr cities'"
  shows "cities' = cities @ (case spec_valid_name page of None \<Rightarrow> [] | Some n \<Rightarrow> [n])"
  using page_step_cases [of page] assms
  by (auto dest!: extract_valid_name simp: name_of_value_def)

lemma spec_text_or_empty_iff: "spec_text_or_empty v \<longleftrightarrow> \<not> truthy v \<or> (\<exists>t. v = JString t)"
  by (cases v) (simp_all add: spec_text_or_empty_def)

lemma kind_with_payload_obj:
  "kind_with_payload (JObject kvs) kind =
     (case map_of kvs (ascii ''type'') of
        None \<Rightarrow> Inl (KeyError (KStr (ascii ''type'')))
      | Some ty \<Rightarrow>
          if ty = JString kind then
            (case map_of kvs kind of
               None \<Rightarrow> Inl (KeyError (KStr kind))
             | Some p \<Rightarrow> Inr (truthy p))
          else Inr False)"
  by (simp add: kind_with_payload_def split: option.splits)

lemma first_plain_text_obj:
  "first_plain_text (JObject kvs) kind =
     (case map_of kvs kind of
        None \<Rightarrow> Inl (KeyError (KStr kind))
      | Some p \<Rightarrow>
          (case py_getitem p (KInt 0) of
             Inl e \<Rightarrow> Inl e
           | Inr seg \<Rightarrow> py_getitem seg (KStr (ascii ''plain_text''))))"
  by (simp add: first_plain_text_def split: option.splits)

lemma segment_shaped:
  "spec_shaped_segment seg
     \<longleftrightarrow> (\<exists>v. py_getitem seg (KStr (ascii ''plain_text'')) = Inr v \<and> spec_text_or_empty v)"
  by (cases seg)
     (auto simp: spec_shaped_segment_def py_getitem_def not_subscriptable_def split: option.splits)

lemma payload_falsy: "\<not> truthy p \<Longrightarrow> spec_shaped_payload p"
  by (cases p) (simp_all add: spec_shaped_payload_def)

lemma payload_shaped:
  assumes "truthy p"
  shows "spec_shaped_payload p
     \<longleftrightarrow> (\<exists>v. (case py_getitem p (KInt 0) of
                 Inl e \<Rightarrow> Inl e
               | Inr seg \<Rightarrow> py_getitem seg (KStr (ascii ''plain_text''))) = Inr v
             \<and> spec_text_or_empty v)"
proof (cases p)
  case (JArray xs)
  with assms obtain seg rest where "xs = seg # rest" by (cases xs) auto
  with JArray show ?thesis
    by (simp add: spec_shaped_payload_def py_getitem_def segment_shaped)
next
  case (JString cs)
  with assms obtain c rest where "cs = c # rest" by (cases cs) auto
  with JString show ?thesis
    by (simp add: spec_shaped_payload_def py_getitem_def)
qed (use assms in \<open>simp_all add: spec_shaped_payload_def py_getitem_def not_subscriptable_def\<close>)

lemma property_falsy: "\<not> truthy cp \<Longrightarrow> spec_shaped_property cp"
  by (cases cp) (simp_all add: spec_shaped_property_def)

lemma property_shaped:
  assumes "truthy cp"
  shows "spec_shaped_property cp \<longleftrightarrow> (\<exists>v. property_name cp = Inr v \<and> spec_text_or_empty v)"
proof (cases cp)
  case (JObject kvs)
  with assms have ne: "kvs \<noteq> []" by simp
  have nt: "spec_text_or_empty JNull" by (simp add: spec_text_or_empty_def)
  show ?thesis
  proof (cases "map_of kvs (ascii ''type'')")
    case None
    with JObject ne show ?thesis
      by (simp add: spec_shaped_property_def property_name_def kind_with_payload_obj)
  next
    case (Some ty)
    have kind: "spec_shaped_kind kvs kind
        \<longleftrightarrow> (\<exists>v. (case (case map_of kvs kind of
                            None \<Rightarrow> Inl (KeyError (KStr kind))
                          | Some p \<Rightarrow> Inr (truthy p)) of
                     Inl e \<Rightarrow> Inl e
                   | Inr True \<Rightarrow> first_plain_text (JObject kvs) kind
                   | Inr False \<Rightarrow> Inr JNull) = Inr v \<and> spec_text_or_empty v)" for kind
    proof (cases "map_of kvs kind")
      case None
      then show ?thesis by (simp add: spec_shaped_kind_def)
    next
      case (Some p)
      show ?thesis
      proof (cases "truthy p")
        case True
        with Some payload_shaped [OF True] show ?thesis
          by (simp add: spec_shaped_kind_def first_plain_text_obj)
      next
        case False
        with Some payload_falsy [OF False] nt show ?thesis
          by (simp add: spec_shaped_kind_def)
      qed
    qed
    show ?thesis
    proof (cases "ty = JString (ascii ''title'')")
      case True
      with JObject Some kind [of "ascii ''title''"] show ?thesis
        by (auto simp: spec_shaped_property_def property_name_def kind_with_payload_obj
            split: option.splits bool.splits)
    next
      case False
      note not_title = False
      show ?thesis
      proof (cases "ty = JString (ascii ''rich_text'')")
        case True
        with JObject Some not_title kind [of "ascii ''rich_text''"] show ?thesis
          by (auto simp: spec_shaped_property_def property_name_def kind_with_payload_obj
              split: option.splits bool.splits)
      next
        case False
        with JObject Some not_title nt show ?thesis
          by (simp add: spec_shaped_property_def property_name_def kind_with_payload_obj)
      qed
    qed
  qed
qed (use assms in \<open>simp_all add: spec_shaped_property_def property_name_def kind_with_payload_def
       py_getitem_def not_subscriptable_def\<close>)

lemma extract_property:
  "extract_city_name page =
     (case py_get page (ascii ''properties'') (JObject []) of
        Inl e \<Rightarrow> Inl e
      | Inr properties \<Rightarrow>
          (case py_get properties NOTION_CITY_PROPERTY_NAME JNull of
             Inl e \<Rightarrow> Inl e
           | Inr cp \<Rightarrow> if truthy cp then property_name cp else Inr JNull))"
  by (simp add: extract_city_name_def property_name_def split: sum.splits)

lemma property_extract:
  "spec_shaped_property cp
     \<longleftrightarrow> (\<exists>v. (if truthy cp then property_name cp else Inr JNull) = Inr v \<and> spec_text_or_empty v)"
proof (cases "truthy cp")
  case True
  with property_shaped [OF True] show ?thesis by simp
next
  case False
  with property_falsy [OF False] show ?thesis by (simp add: spec_text_or_empty_def)
qed

lemma shaped_extract:
  "spec_shaped page \<longleftrightarrow> (\<exists>v. extract_city_name page = Inr v \<and> spec_text_or_empty v)"
proof (cases page)
  case (JObject pg)
  have nt: "spec_text_or_empty JNull" by (simp add: spec_text_or_empty_def)
  show ?thesis
  proof (cases "map_of pg (ascii ''properties'')")
    case None
    with JObject nt show ?thesis
      by (simp add: spec_shaped_def extract_property NOTION_CITY_PROPERTY_NAME_def)
  next
    case (Some properties)
    show ?thesis
    proof (cases properties)
      case (JObject props)
      show ?thesis
      proof (cases "map_of props (ascii ''City Name'')")
        case None
        with \<open>page = JObject pg\<close> Some JObject nt show ?thesis
          by (simp add: spec_shaped_def extract_property NOTION_CITY_PROPERTY_NAME_def)
      next
        case (Some cp)
        with \<open>page = JObject pg\<close> \<open>map_of pg (ascii ''properties'') = Some properties\<close> JObject
          property_extract [of cp]
        show ?thesis
          by (simp add: spec_shaped_def extract_property NOTION_CITY_PROPERTY_NAME_def)
      qed
    qed (use \<open>page = JObject pg\<close> Some in
          \<open>simp_all add: spec_shaped_def extract_property py_get_def no_attribute_def\<close>)
  qed
qed (simp_all add: spec_shaped_def extract_property py_get_def no_attribute_def)

lemma well_formed_not_raises:
  assumes "spec_well_formed page"
  shows "\<not> page_raises page"
proof -
  from assms have sh: "spec_shaped page" and idn: "spec_has_valid_name page \<or> spec_id_prints page"
    by (simp_all add: spec_well_formed_def)
  from sh obtain v where v: "extract_city_name page = Inr v" and u: "\<not> truthy v \<or> (\<exists>t. v = JString t)"
    by (auto simp: shaped_extract spec_text_or_empty_iff)
  note vn = extract_valid_name [OF v]
  show ?thesis
  proof (cases "name_of_value v")
    case None
    with vn idn have "spec_id_prints page" by (simp add: spec_has_valid_name_def)
    from page_step_skip [OF v None u this] show ?thesis by (simp add: page_raises_def)
  next
    case (Some n)
    then obtain t where "v = JString t" "strip t \<noteq> []"
      by (cases v) (auto simp: name_of_value_def split: if_splits)
    with page_step_take [of page t] v show ?thesis by (simp add: page_raises_def)
  qed
qed

lemma not_raises_well_formed:
  assumes "\<not> page_raises page"
  shows "spec_well_formed page"
proof -
  from assms obtain cs where st: "page_step page [] = Inr cs"
    by (cases "page_step page []") (auto simp: page_raises_def)
  from page_step_cases [of page] st
  consider v where "extract_city_name page = Inr v" "name_of_value v = None"
      "\<not> truthy v \<or> (\<exists>t. v = JString t)" "warn_outcome page = Inr ()"
    | t where "extract_city_name page = Inr (JString t)" "strip t \<noteq> []"
    by auto
  then show ?thesis
  proof cases
    case 1
    from 1(1) obtain pg where "page = JObject pg" by (auto dest: extract_city_name_page)
    with 1(4) have "spec_id_prints page" by (simp add: warn_outcome_prints)
    moreover from 1(1,3) have "spec_shaped page"
      by (auto simp: shaped_extract spec_text_or_empty_iff)
    ultimately show ?thesis by (simp add: spec_well_formed_def)
  next
    case 2
    from extract_valid_name [OF 2(1)] 2(2) have "spec_has_valid_name page"
      by (simp add: spec_has_valid_name_def name_of_value_def)
    moreover from 2(1) have "spec_shaped page"
      by (auto simp: shaped_extract spec_text_or_empty_iff)
    ultimately show ?thesis by (simp add: spec_well_formed_def)
  qed
qed

text \<open>The records that are well formed are exactly those on which the pass does not raise.\<close>

lemma well_formed_iff: "spec_well_formed page \<longleftrightarrow> \<not> page_raises page"
  using well_formed_not_raises not_raises_well_formed by blast

lemma digits_not_Nil [simp]: "digits n \<noteq> []"
  by (subst digits.simps) simp

lemma str_int_not_Nil [simp]: "str_int i \<noteq> []"
  by (simp add: str_int_def)

lemma http_error_msg_Nil: "http_error_msg r = [] \<longleftrightarrow> \<not> (400 \<le> status_code r \<and> status_code r < 600)"
  unfolding http_error_msg_def by (simp del: not_le not_less) arith

lemma raise_for_status_ok:
  "raise_for_status r = (if 400 \<le> status_code r \<and> status_code r < 600
     then Inl (RequestException (http_error_msg r) (Some r)) else Inr ())"
  unfolding raise_for_status_def http_error_msg_Nil by simp

lemma for_pages_append:
  "for_pages (xs @ ys) cities =
     (case for_pages xs cities of Inl e \<Rightarrow> Inl e | Inr cities' \<Rightarrow> for_pages ys cities')"
  by (induction xs arbitrary: cities) (auto split: sum.splits)

lemma for_pages_Inl: "for_pages pages cities = Inl e \<Longrightarrow> interpreter_error e"
  by (induction pages arbitrary: cities) (auto split: sum.splits dest: page_step_Inl)

lemma for_pages_raises:
  assumes "page \<in> set pages" "page_step page [] = Inl e"
  shows "\<exists>e'. for_pages pages cities = Inl e'"
  using assms
proof (induction pages arbitrary: cities)
  case Nil
  then show ?case by simp
next
  case (Cons p ps)
  show ?case
  proof (cases "page_step p cities")
    case (Inl e0)
    then show ?thesis by simp
  next
    case (Inr cities')
    have "page \<noteq> p"
    proof
      assume "page = p"
      with Cons.prems(2) have "page_step p cities = Inl e" by (auto intro: page_step_raises)
      with Inr show False by simp
    qed
    with Cons.prems have "page \<in> set ps" by simp
    from Cons.IH [OF this Cons.prems(2)] Inr show ?thesis by simp
  qed
qed

lemma for_pages_valid:
  assumes "\<forall>page\<in>set pages. \<not> isl (page_step page [])"
  shows "for_pages pages cities = Inr (cities @ List.map_filter spec_valid_name pages)"
  using assms
proof (induction pages arbitrary: cities)
  case Nil
  then show ?case by (simp add: List.map_filter_simps)
next
  case (Cons p ps)
  from Cons.prems have "\<not> isl (page_step p [])" by simp
  then have "\<not> isl (page_step p cities)"
    using page_step_raises [of p cities _ "[]"] by (cases "page_step p cities") auto
  then obtain cities' where st: "page_step p cities = Inr cities'"
    by (cases "page_step p cities") auto
  note eq = page_step_Inr [OF st]
  from Cons.prems have "\<forall>page\<in>set ps. \<not> isl (page_step page [])" by simp
  from Cons.IH [OF this] st eq show ?case
    by (simp add: List.map_filter_simps split: option.splits)
qed

lemma try_block_results:
  assumes "\<not> (400 \<le> status_code r \<and> status_code r < 600)"
    and "json r = Inr (JObject body)"
    and "map_of body (ascii ''results'') = Some (JArray records)"
  shows "try_block (Post_returns r) = for_pages records []"
  using assms by (auto simp add: try_block_def raise_for_status_ok py_iter_def)

lemma get_cities_ok:
  assumes "try_block outcome = Inr cities"
  shows "get_cities outcome = Inr (JArray (map JString cities), 200)"
  using assms by (simp add: get_cities_def)

lemma get_cities_interpreter_error:
  assumes "try_block outcome = Inl e" "interpreter_error e"
  shows "get_cities outcome = Inr (error_body (JString (internal_error_prefix @ str_exc e)), 500)"
  using assms by (cases e) (simp_all add: get_cities_def interpreter_error_def)

lemma on_request_exception_body:
  "on_request_exception m resp = Inr (b, st) \<Longrightarrow> \<exists>msg. b = error_body msg"
  by (auto simp: on_request_exception_def Let_def split: option.splits sum.splits)

lemma get_cities_JArray:
  assumes "get_cities outcome = Inr (JArray names, st)"
  shows "\<exists>cities. try_block outcome = Inr cities \<and> names = map JString cities \<and> st = 200"
proof (cases "try_block outcome")
  case (Inr cities)
  with assms show ?thesis by (simp add: get_cities_def)
next
  case (Inl e)
  with assms show ?thesis
    by (cases e) (auto simp: get_cities_def error_body_def dest: on_request_exception_body)
qed

lemma try_block_Inr:
  assumes "try_block outcome = Inr cities"
  shows "\<exists>pages. for_pages pages [] = Inr cities"
  using assms
  by (auto simp: try_block_def split: post_outcome.splits sum.splits)

lemma for_pages_trimmed:
  assumes "for_pages pages cities = Inr out" "\<forall>s\<in>set cities. trimmed s"
  shows "\<forall>s\<in>set out. trimmed s"
  using assms
proof (induction pages arbitrary: cities)
  case Nil
  then show ?case by simp
next
  case (Cons p ps)
  from Cons.prems(1) obtain cities' where st: "page_step p cities = Inr cities'"
    and rest: "for_pages ps cities' = Inr out"
    by (auto split: sum.splits)
  from page_step_cases [of p] st have "cities' = cities \<or> (\<exists>t. strip t \<noteq> [] \<and> cities' = cities @ [strip t])"
    by auto
  then have "\<forall>s\<in>set cities'. trimmed s"
    using Cons.prems(2) by (auto simp: trimmed_def dest: strip_ends)
  from Cons.IH [OF rest this] show ?case .
qed

lemma extract_city_page:
  "extract_city_name (city_page ident cp) =
     (if truthy cp then
        (case kind_with_payload cp (ascii ''title'') of
           Inl e \<Rightarrow> Inl e
         | Inr True \<Rightarrow> first_plain_text cp (ascii ''title'')
         | Inr False \<Rightarrow>
             (case kind_with_payload cp (ascii ''rich_text'') of
                Inl e \<Rightarrow> Inl e
              | Inr True \<Rightarrow> first_plain_text cp (ascii ''rich_text'')
              | Inr False \<Rightarrow> Inr JNull))
      else Inr JNull)"
  by (simp add: extract_city_name_def city_page_def NOTION_CITY_PROPERTY_NAME_def)

lemma strip_tokyo: "strip (ascii '' Tokyo '') = ascii ''Tokyo''"
  by (simp add: strip_def ascii_def is_space_def)

lemma strip_blank: "strip (ascii ''  '') = []"
  by (simp add: strip_def ascii_def is_space_def)

lemma extract_tokyo: "extract_city_name tokyo_page = Inr (JString (ascii '' Tokyo ''))"
  by (simp add: tokyo_page_def extract_city_page text_property_def kind_with_payload_def
      first_plain_text_def py_getitem_def)

lemma extract_number: "extract_city_name number_page = Inr JNull"
  by (simp add: number_page_def extract_city_page kind_with_payload_def)

lemma extract_blank: "extract_city_name blank_page = Inr (JString (ascii ''  ''))"
  by (simp add: blank_page_def extract_city_page text_property_def kind_with_payload_def
      first_plain_text_def py_getitem_def)

lemma extract_untyped: "extract_city_name untyped_page = Inl (KeyError (KStr (ascii ''type'')))"
  by (simp add: untyped_page_def extract_city_page kind_with_payload_def)

lemma extract_empty_property: "extract_city_name empty_property_page = Inr JNull"
  by (simp add: empty_property_page_def extract_city_page)

lemma extract_no_payload: "extract_city_name no_payload_page = Inl (KeyError (KStr (ascii ''title'')))"
  by (simp add: no_payload_page_def extract_city_page kind_with_payload_def)

lemma step_tokyo: "page_step tokyo_page cities = Inr (cities @ [ascii ''Tokyo''])"
  using page_step_take [OF extract_tokyo] by (simp add: strip_tokyo)

lemma step_number: "page_step number_page cities = Inr cities"
  by (rule page_step_skip [OF extract_number])
     (simp_all add: name_of_value_def number_page_def city_page_prints)

lemma step_blank: "page_step blank_page cities = Inr cities"
  by (rule page_step_skip [OF extract_blank])
     (simp_all add: name_of_value_def strip_blank blank_page_def city_page_prints)

lemma step_empty_property: "page_step empty_property_page cities = Inr cities"
  by (rule page_step_skip [OF extract_empty_property])
     (simp_all add: name_of_value_def empty_property_page_def city_page_prints)

lemma step_untyped: "page_step untyped_page cities = Inl (KeyError (KStr (ascii ''type'')))"
  by (rule page_step_extract_Inl [OF extract_untyped])

lemma step_no_payload: "page_step no_payload_page cities = Inl (KeyError (KStr (ascii ''title'')))"
  by (rule page_step_extract_Inl [OF extract_no_payload])

lemma well_formed_examples:
  "spec_well_formed tokyo_page" "spec_well_formed number_page"
  "spec_well_formed empty_title_page" "spec_well_formed no_property_page"
  "spec_well_formed empty_property_page" "spec_well_formed blank_page"
  by (simp_all add: spec_well_formed_def spec_shaped_def spec_shaped_property_def
      spec_shaped_kind_def spec_shaped_payload_def spec_shaped_segment_def spec_text_or_empty_def
      spec_id_prints_def ascii_no_surrogate
      tokyo_page_def number_page_def empty_title_page_def no_property_page_def
      empty_property_page_def blank_page_def city_page_def text_property_def)

lemma valid_name_examples:
  "spec_valid_name tokyo_page = Some (ascii ''Tokyo'')" "spec_valid_name number_page = None"
  "spec_valid_name empty_title_page = None" "spec_valid_name no_property_page = None"
  by (simp_all add: spec_valid_name_def spec_city_name_property_def spec_text_segments_def
      spec_plain_text_def strip_tokyo
      tokyo_page_def number_page_def empty_title_page_def no_property_page_def
      city_page_def text_property_def)

lemma try_block_upstream:
  assumes "\<not> (400 \<le> code \<and> code < 600)"
  shows "try_block (Post_returns (upstream code why (JObject (results_body pages)))) = for_pages pages []"
proof (rule try_block_results)
  show "\<not> (400 \<le> status_code (upstream code why (JObject (results_body pages)))
            \<and> status_code (upstream code why (JObject (results_body pages))) < 600)"
    using assms by (simp add: upstream_def)
  show "json (upstream code why (JObject (results_body pages))) = Inr (JObject (results_body pages))"
    by (simp add: upstream_def)
  show "map_of (results_body pages) (ascii ''results'') = Some (JArray pages)"
    by (simp add: results_body_def)
qed

lemma get_cities_same_loop:
  assumes "\<not> (400 \<le> status_code r \<and> status_code r < 600)"
    and "json r = Inr (JObject body)"
    and "map_of body (ascii ''results'') = Some (JArray pages)"
    and "\<not> (400 \<le> status_code r' \<and> status_code r' < 600)"
    and "json r' = Inr (JObject body')"
    and "map_of body' (ascii ''results'') = Some (JArray pages')"
    and "for_pages pages [] = for_pages pages' []"
  shows "get_cities (Post_returns r) = get_cities (Post_returns r')"
proof -
  have "try_block (Post_returns r) = try_block (Post_returns r')"
    using try_block_results [OF assms(1-3)] try_block_results [OF assms(4-6)] assms(7) by simp
  then show ?thesis by (simp add: get_cities_def)
qed

lemma for_pages_drop_skipped:
  assumes "\<And>cs. page_step page cs = Inr cs"
  shows "for_pages (xs @ page # ys) cities = for_pages (xs @ ys) cities"
  by (simp add: for_pages_append assms split: sum.splits)

lemma extract_other_kind:
  assumes "map_of pg (ascii ''properties'') = Some (JObject props)"
    and "map_of props (ascii ''City Name'') = Some (JObject cp)"
    and "map_of cp (ascii ''type'') = Some kind"
    and "kind \<noteq> JString (ascii ''title'')" "kind \<noteq> JString (ascii ''rich_text'')"
  shows "extract_city_name (JObject pg) = Inr JNull"
proof -
  from assms(3) have "cp \<noteq> []" by auto
  with assms show ?thesis
    by (simp add: extract_city_name_def NOTION_CITY_PROPERTY_NAME_def kind_with_payload_def)
qed

lemma lacks_plain_text_raises:
  "lacks_plain_text seg \<Longrightarrow> \<exists>e. py_getitem seg (KStr (ascii ''plain_text'')) = Inl e"
  by (cases seg) (auto simp: lacks_plain_text_def py_getitem_def)

lemma extract_malformed:
  assumes "map_of pg (ascii ''properties'') = Some (JObject props)"
    and "map_of props (ascii ''City Name'') = Some (JObject cp)"
    and "(cp \<noteq> [] \<and> map_of cp (ascii ''type'') = None)
         \<or> (\<exists>kind seg segs. (kind = ascii ''title'' \<or> kind = ascii ''rich_text'')
               \<and> map_of cp (ascii ''type'') = Some (JString kind)
               \<and> map_of cp kind = Some (JArray (seg # segs))
               \<and> lacks_plain_text seg)"
  shows "\<exists>e. extract_city_name (JObject pg) = Inl e"
  using assms(3)
proof
  assume "cp \<noteq> [] \<and> map_of cp (ascii ''type'') = None"
  with assms(1,2) show ?thesis
    by (simp add: extract_city_name_def NOTION_CITY_PROPERTY_NAME_def kind_with_payload_def)
next
  assume "\<exists>kind seg segs. (kind = ascii ''title'' \<or> kind = ascii ''rich_text'')
               \<and> map_of cp (ascii ''type'') = Some (JString kind)
               \<and> map_of cp kind = Some (JArray (seg # segs))
               \<and> lacks_plain_text seg"
  then obtain kind seg segs where k: "kind = ascii ''title'' \<or> kind = ascii ''rich_text''"
    and ty: "map_of cp (ascii ''type'') = Some (JString kind)"
    and pl: "map_of cp kind = Some (JArray (seg # segs))"
    and lp: "lacks_plain_text seg" by blast
  from lacks_plain_text_raises [OF lp] obtain e where e: "py_getitem seg (KStr (ascii ''plain_text'')) = Inl e"
    by blast
  from ty have ne: "cp \<noteq> []" by auto
  have kw: "kind_with_payload (JObject cp) kind = Inr True"
    using ty pl by (simp add: kind_with_payload_def)
  have fp: "first_plain_text (JObject cp) kind = Inl e"
    using pl e by (simp add: first_plain_text_def py_getitem_def)
  from k show ?thesis
  proof
    assume "kind = ascii ''title''"
    with assms(1,2) ne kw fp show ?thesis
      by (simp add: extract_city_name_def NOTION_CITY_PROPERTY_NAME_def)
  next
    assume r: "kind = ascii ''rich_text''"
    then have "kind_with_payload (JObject cp) (ascii ''title'') = Inr False"
      using ty by (simp add: kind_with_payload_def)
    with assms(1,2) ne kw fp r show ?thesis
      by (simp add: extract_city_name_def NOTION_CITY_PROPERTY_NAME_def)
  qed
qed

lemma for_pages_drop_unnamed:
  assumes "\<And>cs cs'. page_step page cs = Inr cs' \<Longrightarrow> cs' = cs"
    and "for_pages (xs @ page # ys) cities = Inr out"
  shows "for_pages (xs @ ys) cities = Inr out"
proof -
  from assms(2) obtain c1 where c1: "for_pages xs cities = Inr c1"
    and r: "for_pages (page # ys) c1 = Inr out"
    by (auto simp: for_pages_append split: sum.splits)
  from r obtain c2 where c2: "page_step page c1 = Inr c2" and ys: "for_pages ys c2 = Inr out"
    by (auto split: sum.splits)
  from assms(1) [OF c2] ys have "for_pages ys c1 = Inr out" by simp
  with c1 show ?thesis by (simp add: for_pages_append)
qed

lemma page_step_unnamed:
  assumes "spec_valid_name page = None" "page_step page cs = Inr cs'"
  shows "cs' = cs"
  using page_step_Inr [OF assms(2)] assms(1) by simp

text \<open>
  The warning of line 98 can end the request: for a record that gives no name and whose
  identifier is a lone surrogate, the \<open>print\<close> raises inside the \<open>try\<close> and the generic
  clause answers with status 500.
\<close>

lemma step_surrogate: "page_step surrogate_page cities = Inl (UnicodeEncodeError 55296 6 7)"
  by (simp add: page_step_def extract_city_name_def surrogate_page_def
      NOTION_CITY_PROPERTY_NAME_def log_warning_def is_surrogate_def warning_prefix_def)

lemma unloggable_id_fails_request:
  "get_cities (Post_returns (upstream 200 ''OK'' (JObject (results_body [tokyo_page, surrogate_page]))))
     = Inr (JObject [(ascii ''error'',
              JString (internal_error_prefix @ str_exc (UnicodeEncodeError 55296 6 7)))], 500)"
  by (simp add: get_cities_def try_block_upstream step_tokyo step_surrogate error_body_def)

lemma http_error_object_body:
  assumes "400 \<le> status_code r" "status_code r < 600" "json r = Inr (JObject body)"
  shows "get_cities (Post_returns r)
           = Inr (error_body (case map_of body (ascii ''message'') of
                                Some msg \<Rightarrow> msg
                              | None \<Rightarrow> JString (request_failed_prefix @ http_error_msg r)),
                  status_code r)"
  using assms
  by (simp add: get_cities_def try_block_def raise_for_status_ok on_request_exception_def
      split: option.splits)

lemma http_error_undecodable_body:
  assumes "400 \<le> status_code r" "status_code r < 600" "json r = Inl je"
  shows "get_cities (Post_returns r)
           = Inr (error_body (JString (request_failed_prefix @ http_error_msg r
                                         @ status_suffix (status_code r))),
                  status_code r)"
  using assms
  by (simp add: get_cities_def try_block_def raise_for_status_ok on_request_exception_def)

section \<open>The claims\<close>

subsection \<open>Claim C1\<close>

text \<open>
  Claim C1, as the code has it. For an upstream 2xx response whose body holds a
  \<open>results\<close> sequence of well-formed records, the handler returns HTTP 200 with the
  trimmed names of exactly the records that have a valid non-empty title or rich-text
  property, in the order of their records: as many strings as there are such records.
  Records without the property, with an empty property, of another kind, with an empty
  segment list or with an empty or blank text are well formed and are skipped. By
  \<open>well_formed_iff\<close> the well-formed records are exactly those on which the pass does not
  raise.
\<close>

theorem valid_names_returned:
  assumes "200 \<le> status_code r" "status_code r < 300"
    and "json r = Inr (JObject body)"
    and "map_of body (ascii ''results'') = Some (JArray records)"
    and "\<forall>page\<in>set records. spec_well_formed page"
  shows "get_cities (Post_returns r)
           = Inr (JArray (map JString (List.map_filter spec_valid_name records)), 200)
         \<and> length (List.map_filter spec_valid_name records) = length (filter spec_has_valid_name records)"
proof -
  from assms(1,2) have ok: "\<not> (400 \<le> status_code r \<and> status_code r < 600)" by simp
  from assms(5) have "\<forall>page\<in>set records. \<not> isl (page_step page [])"
    using well_formed_not_raises by (auto simp: page_raises_def)
  from for_pages_valid [OF this, of "[]"] try_block_results [OF ok assms(3,4)]
  have "try_block (Post_returns r) = Inr (List.map_filter spec_valid_name records)" by simp
  moreover have "length (List.map_filter spec_valid_name records) = length (filter spec_has_valid_name records)"
    by (induction records)
       (simp_all add: List.map_filter_simps spec_has_valid_name_def split: option.splits)
  ultimately show ?thesis by (simp add: get_cities_ok)
qed

theorem valid_names_returned_witness:
  "get_cities (Post_returns (upstream 200 ''OK''
       (JObject (results_body [empty_title_page, tokyo_page, number_page, no_property_page]))))
     = Inr (JArray [JString (ascii ''Tokyo'')], 200)
   \<and> length (filter spec_has_valid_name [empty_title_page, tokyo_page, number_page, no_property_page]) = 1"
proof -
  let ?records = "[empty_title_page, tokyo_page, number_page, no_property_page]"
  let ?r = "upstream 200 ''OK'' (JObject (results_body ?records))"
  have h1: "200 \<le> status_code ?r" and h2: "status_code ?r < 300"
    by (simp_all add: upstream_def)
  have h3: "json ?r = Inr (JObject (results_body ?records))"
    by (simp add: upstream_def)
  have h4: "map_of (results_body ?records) (ascii ''results'') = Some (JArray ?records)"
    by (simp add: results_body_def)
  have h5: "\<forall>page\<in>set ?records. spec_well_formed page"
    by (simp add: well_formed_examples)
  from valid_names_returned [OF h1 h2 h3 h4 h5] show ?thesis
    by (simp add: List.map_filter_simps valid_name_examples)
qed

text \<open>
  Claim C1 as stated fails: of these two records exactly one has a valid property, and
  the other, whose property has no \<open>type\<close>, makes the whole request fail with status 500
  instead of a list of one name.
\<close>

theorem malformed_record_fails_request:
  "spec_valid_name tokyo_page = Some (ascii ''Tokyo'') \<and> spec_valid_name untyped_page = None
   \<and> get_cities (Post_returns (upstream 200 ''OK'' (JObject (results_body [tokyo_page, untyped_page]))))
       = Inr (JObject [(ascii ''error'', JString (internal_error_prefix @ quoted (ascii ''type'')))], 500)"
proof -
  have v1: "spec_valid_name tokyo_page = Some (ascii ''Tokyo'')"
    using extract_valid_name [OF extract_tokyo] by (simp add: name_of_value_def strip_tokyo)
  have v2: "spec_valid_name untyped_page = None"
    by (simp add: spec_valid_name_def spec_city_name_property_def untyped_page_def city_page_def
        spec_text_segments_def)
  have "try_block (Post_returns (upstream 200 ''OK'' (JObject (results_body [tokyo_page, untyped_page]))))
          = Inl (KeyError (KStr (ascii ''type'')))"
    by (simp add: try_block_upstream step_tokyo step_untyped)
  then show ?thesis using v1 v2
    by (simp add: get_cities_def error_body_def)
qed

subsection \<open>Claim C2\<close>

text \<open>
  Claim C2. A record whose \<open>City Name\<close> property has a kind other than \<open>title\<close> and
  \<open>rich_text\<close> adds no name, whatever else the property holds: whenever the pass over it
  returns, the list of cities is as before, and an array that is returned for results
  with the record is the array returned for the same results without it. When the
  identifier of the record can be logged, the pass does return and the two responses are
  equal.
\<close>

theorem other_kinds_excluded:
  assumes "map_of pg (ascii ''properties'') = Some (JObject props)"
    and "map_of props (ascii ''City Name'') = Some (JObject cp)"
    and "map_of cp (ascii ''type'') = Some kind"
    and "kind \<noteq> JString (ascii ''title'')" "kind \<noteq> JString (ascii ''rich_text'')"
    and "200 \<le> status_code r" "status_code r < 300"
    and "json r = Inr (JObject body)"
    and "map_of body (ascii ''results'') = Some (JArray (xs @ JObject pg # ys))"
    and "200 \<le> status_code r'" "status_code r' < 300"
    and "json r' = Inr (JObject body')"
    and "map_of body' (ascii ''results'') = Some (JArray (xs @ ys))"
  shows "(\<forall>cities cities'. page_step (JObject pg) cities = Inr cities' \<longrightarrow> cities' = cities)
         \<and> (\<forall>names status. get_cities (Post_returns r) = Inr (JArray names, status)
                \<longrightarrow> get_cities (Post_returns r') = Inr (JArray names, status))
         \<and> (spec_id_prints (JObject pg)
                \<longrightarrow> (\<forall>cities. page_step (JObject pg) cities = Inr cities)
                    \<and> get_cities (Post_returns r) = get_cities (Post_returns r'))"
proof -
  note ex = extract_other_kind [OF assms(1-5)]
  from extract_valid_name [OF ex] have none: "spec_valid_name (JObject pg) = None"
    by (simp add: name_of_value_def)
  from assms(6,7) have ok: "\<not> (400 \<le> status_code r \<and> status_code r < 600)" by simp
  from assms(10,11) have ok': "\<not> (400 \<le> status_code r' \<and> status_code r' < 600)" by simp
  note t = try_block_results [OF ok assms(8,9)]
  note t' = try_block_results [OF ok' assms(12,13)]
  have unchanged: "cs' = cs" if "page_step (JObject pg) cs = Inr cs'" for cs cs'
    using page_step_unnamed [OF none that] .
  have same_array: "get_cities (Post_returns r') = Inr (JArray names, status)"
    if g: "get_cities (Post_returns r) = Inr (JArray names, status)" for names status
  proof -
    from get_cities_JArray [OF g] obtain cs where cs: "try_block (Post_returns r) = Inr cs"
      and n: "names = map JString cs" and st: "status = 200" by blast
    have "for_pages (xs @ JObject pg # ys) [] = Inr cs" unfolding t [symmetric] by (rule cs)
    then have "for_pages (xs @ ys) [] = Inr cs"
      by (rule for_pages_drop_unnamed [rotated]) (rule unchanged)
    then have "try_block (Post_returns r') = Inr cs" unfolding t' .
    from get_cities_ok [OF this] show ?thesis unfolding n st .
  qed
  have skipped: "(\<forall>cities. page_step (JObject pg) cities = Inr cities)
                 \<and> get_cities (Post_returns r) = get_cities (Post_returns r')"
    if p: "spec_id_prints (JObject pg)"
  proof -
    have skip: "\<And>cs. page_step (JObject pg) cs = Inr cs"
      by (rule page_step_skip [OF ex _ _ p]) (simp_all add: name_of_value_def)
    have "get_cities (Post_returns r) = get_cities (Post_returns r')"
      by (rule get_cities_same_loop [OF ok assms(8,9) ok' assms(12,13)])
         (rule for_pages_drop_skipped [OF skip])
    with skip show ?thesis by blast
  qed
  from unchanged same_array skipped show ?thesis by blast
qed

theorem other_kinds_excluded_witness:
  "page_step number_page [] = Inr []
   \<and> get_cities (Post_returns (upstream 200 ''OK'' (JObject (results_body [tokyo_page, number_page]))))
       = get_cities (Post_returns (upstream 200 ''OK'' (JObject (results_body [tokyo_page]))))"
proof -
  let ?pg = "[(ascii ''id'', JString (ascii ''2'')),
              (ascii ''properties'', JObject [(ascii ''City Name'',
                 JObject [(ascii ''type'', JString (ascii ''number'')), (ascii ''number'', JInt 5)])])]"
  let ?r = "upstream 200 ''OK'' (JObject (results_body ([tokyo_page] @ JObject ?pg # [])))"
  let ?r' = "upstream 200 ''OK'' (JObject (results_body ([tokyo_page] @ [])))"
  have n: "number_page = JObject ?pg" by (simp add: number_page_def city_page_def)
  have a1: "map_of ?pg (ascii ''properties'') = Some (JObject [(ascii ''City Name'',
                 JObject [(ascii ''type'', JString (ascii ''number'')), (ascii ''number'', JInt 5)])])"
    by simp
  have a2: "map_of [(ascii ''City Name'',
                 JObject [(ascii ''type'', JString (ascii ''number'')), (ascii ''number'', JInt 5)])]
              (ascii ''City Name'')
            = Some (JObject [(ascii ''type'', JString (ascii ''number'')), (ascii ''number'', JInt 5)])"
    by simp
  have a3: "map_of [(ascii ''type'', JString (ascii ''number'')), (ascii ''number'', JInt 5)] (ascii ''type'')
            = Some (JString (ascii ''number''))"
    by simp
  have a4: "JString (ascii ''number'') \<noteq> JString (ascii ''title'')"
    and a5: "JString (ascii ''number'') \<noteq> JString (ascii ''rich_text'')"
    by simp_all
  have s: "200 \<le> status_code ?r" "status_code ?r < 300" "200 \<le> status_code ?r'" "status_code ?r' < 300"
    by (simp_all add: upstream_def)
  have j: "json ?r = Inr (JObject (results_body ([tokyo_page] @ JObject ?pg # [])))"
    and j': "json ?r' = Inr (JObject (results_body ([tokyo_page] @ [])))"
    by (simp_all add: upstream_def)
  have m: "map_of (results_body ([tokyo_page] @ JObject ?pg # [])) (ascii ''results'')
             = Some (JArray ([tokyo_page] @ JObject ?pg # []))"
    and m': "map_of (results_body ([tokyo_page] @ [])) (ascii ''results'') = Some (JArray ([tokyo_page] @ []))"
    by (simp_all add: results_body_def)
  have p: "spec_id_prints (JObject ?pg)"
    unfolding n [symmetric] number_page_def by (rule city_page_prints)
  from other_kinds_excluded [OF a1 a2 a3 a4 a5 s(1,2) j m s(3,4) j' m'] p
  have "(\<forall>cities. page_step (JObject ?pg) cities = Inr cities)
        \<and> get_cities (Post_returns ?r) = get_cities (Post_returns ?r')"
    by blast
  then show ?thesis by (simp add: n)
qed

subsection \<open>Claim C3\<close>

text \<open>
  Claim C3. Every string of a returned array is non-empty and has no whitespace at its
  start or end; and a record whose extracted plain text is whitespace only is left out:
  whenever the pass over it returns, the list is as before, and a list that the loop
  returns with the record is the list it returns without it. When the identifier of the
  record can be logged, the pass does return and the loop gives the same with and
  without the record.
\<close>

theorem names_trimmed:
  "(\<forall>names status. get_cities outcome = Inr (JArray names, status) \<longrightarrow>
       (\<forall>v\<in>set names. \<exists>s. v = JString s \<and> s \<noteq> [] \<and> \<not> is_space (hd s) \<and> \<not> is_space (last s)))
   \<and> (\<forall>t. extract_city_name page = Inr (JString t) \<and> (\<forall>c\<in>set t. is_space c) \<longrightarrow>
         (\<forall>cs cs'. page_step page cs = Inr cs' \<longrightarrow> cs' = cs)
         \<and> (\<forall>out. for_pages (xs @ page # ys) cities = Inr out
                \<longrightarrow> for_pages (xs @ ys) cities = Inr out)
         \<and> (spec_id_prints page
                \<longrightarrow> page_step page cities = Inr cities
                    \<and> for_pages (xs @ page # ys) cities = for_pages (xs @ ys) cities))"
proof (rule conjI)
  show "\<forall>names status. get_cities outcome = Inr (JArray names, status) \<longrightarrow>
       (\<forall>v\<in>set names. \<exists>s. v = JString s \<and> s \<noteq> [] \<and> \<not> is_space (hd s) \<and> \<not> is_space (last s))"
  proof (intro allI impI ballI)
    fix names status v
    assume g: "get_cities outcome = Inr (JArray names, status)" and v: "v \<in> set names"
    from get_cities_JArray [OF g] obtain cs where cs: "try_block outcome = Inr cs" "names = map JString cs"
      by blast
    from try_block_Inr [OF cs(1)] obtain pages where "for_pages pages [] = Inr cs" by blast
    from for_pages_trimmed [OF this] have "\<forall>s\<in>set cs. trimmed s" by simp
    with v cs(2) show "\<exists>s. v = JString s \<and> s \<noteq> [] \<and> \<not> is_space (hd s) \<and> \<not> is_space (last s)"
      by (auto simp: trimmed_def)
  qed
next
  show "\<forall>t. extract_city_name page = Inr (JString t) \<and> (\<forall>c\<in>set t. is_space c) \<longrightarrow>
         (\<forall>cs cs'. page_step page cs = Inr cs' \<longrightarrow> cs' = cs)
         \<and> (\<forall>out. for_pages (xs @ page # ys) cities = Inr out
                \<longrightarrow> for_pages (xs @ ys) cities = Inr out)
         \<and> (spec_id_prints page
                \<longrightarrow> page_step page cities = Inr cities
                    \<and> for_pages (xs @ page # ys) cities = for_pages (xs @ ys) cities)"
  proof (intro allI impI)
    fix t
    assume a: "extract_city_name page = Inr (JString t) \<and> (\<forall>c\<in>set t. is_space c)"
    then have "strip t = []" by (simp add: strip_Nil_iff)
    then have n: "name_of_value (JString t) = None" by (simp add: name_of_value_def)
    from a have e: "extract_city_name page = Inr (JString t)" by simp
    from extract_valid_name [OF e] n have none: "spec_valid_name page = None" by simp
    have unchanged: "cs' = cs" if "page_step page cs = Inr cs'" for cs cs'
      using page_step_unnamed [OF none that] .
    have dropped: "for_pages (xs @ ys) cities = Inr out"
      if "for_pages (xs @ page # ys) cities = Inr out" for out
      using that by (rule for_pages_drop_unnamed [rotated]) (rule unchanged)
    have skipped: "page_step page cities = Inr cities
                   \<and> for_pages (xs @ page # ys) cities = for_pages (xs @ ys) cities"
      if p: "spec_id_prints page"
    proof -
      have skip: "\<And>cs. page_step page cs = Inr cs"
        by (rule page_step_skip [OF e n _ p]) simp
      from skip for_pages_drop_skipped [OF skip] show ?thesis by blast
    qed
    from unchanged dropped skipped
    show "(\<forall>cs cs'. page_step page cs = Inr cs' \<longrightarrow> cs' = cs)
         \<and> (\<forall>out. for_pages (xs @ page # ys) cities = Inr out
                \<longrightarrow> for_pages (xs @ ys) cities = Inr out)
         \<and> (spec_id_prints page
                \<longrightarrow> page_step page cities = Inr cities
                    \<and> for_pages (xs @ page # ys) cities = for_pages (xs @ ys) cities)"
      by blast
  qed
qed

theorem names_trimmed_witness:
  "get_cities (Post_returns (upstream 200 ''OK'' (JObject (results_body [tokyo_page, blank_page]))))
     = Inr (JArray [JString (ascii ''Tokyo'')], 200)
   \<and> ascii ''Tokyo'' \<noteq> [] \<and> \<not> is_space (hd (ascii ''Tokyo'')) \<and> \<not> is_space (last (ascii ''Tokyo''))
   \<and> page_step blank_page [] = Inr []"
proof -
  let ?out = "Post_returns (upstream 200 ''OK'' (JObject (results_body [tokyo_page, blank_page])))"
  have "try_block ?out = Inr [ascii ''Tokyo'']"
    by (simp add: try_block_upstream step_tokyo step_blank)
  then have g: "get_cities ?out = Inr (JArray [JString (ascii ''Tokyo'')], 200)"
    by (simp add: get_cities_def)
  have w: "\<forall>c\<in>set (ascii ''  ''). is_space c"
    by (simp add: ascii_def is_space_def)
  note t = names_trimmed [of ?out blank_page "[]" "[tokyo_page]" "[]"]
  from t g have "\<forall>v\<in>set [JString (ascii ''Tokyo'')].
      \<exists>s. v = JString s \<and> s \<noteq> [] \<and> \<not> is_space (hd s) \<and> \<not> is_space (last s)"
    by blast
  moreover have "spec_id_prints blank_page"
    unfolding blank_page_def by (rule city_page_prints)
  with t extract_blank w have "page_step blank_page [] = Inr []"
    by blast
  ultimately show ?thesis using g by simp
qed

subsection \<open>Claim C4\<close>




subsection \<open>Claim C5\<close>

text \<open>
  Claim C5 at an upstream error whose body is JSON but no object: status 404 with the
  body \<open>[]\<close>. Line 114 calls \<open>get\<close> on the list inside the \<open>except\<close> clause, and the
  AttributeError leaves the view: no response with the upstream's status and a message
  comes back. Lemmas \<open>http_error_object_body\<close> and \<open>http_error_undecodable_body\<close> show what
  the handler does for an object body and
  for a body that is not JSON.
\<close>

theorem error_body_that_is_no_object_escapes:
  "get_cities (Post_returns (upstream 404 ''Not Found'' (JArray [])))
     = Inl (AttributeError (quoted (ascii ''list'') @ ascii '' object has no attribute ''
                              @ quoted (ascii ''get'')))"
  by (simp add: get_cities_def try_block_def raise_for_status_ok upstream_def
      on_request_exception_def py_get_def no_attribute_def)

subsection \<open>Claim C6\<close>

text \<open>
  Claim C6, as the code has it. For an upstream status from 400 to 599 the \<open>try\<close> block
  ends in the HTTPError of \<open>raise_for_status\<close> before any record is read, and the view
  answers with an error object under the upstream's status or lets an exception out;
  never with a list of names.
\<close>

theorem client_and_server_errors_not_extracted:
  assumes "400 \<le> status_code r" "status_code r < 600"
  shows "try_block (Post_returns r) = Inl (RequestException (http_error_msg r) (Some r))
    \<and> ((\<exists>e. get_cities (Post_returns r) = Inl e)
        \<or> (\<exists>msg. get_cities (Post_returns r) = Inr (JObject [(ascii ''error'', msg)], status_code r)))"
proof -
  have t: "try_block (Post_returns r) = Inl (RequestException (http_error_msg r) (Some r))"
    using assms by (simp add: try_block_def raise_for_status_ok)
  then have "get_cities (Post_returns r) = on_request_exception (http_error_msg r) (Some r)"
    by (simp add: get_cities_def)
  then show ?thesis using t
    by (auto simp: on_request_exception_def Let_def error_body_def split: sum.splits)
qed

theorem client_and_server_errors_not_extracted_witness:
  "get_cities (Post_returns (upstream 404 ''Not Found''
       (JObject [(ascii ''message'', JString (ascii ''Could not find database'')),
                 (ascii ''results'', JArray [tokyo_page])])))
     = Inr (JObject [(ascii ''error'', JString (ascii ''Could not find database''))], 404)"
proof -
  let ?r = "upstream 404 ''Not Found''
       (JObject [(ascii ''message'', JString (ascii ''Could not find database'')),
                 (ascii ''results'', JArray [tokyo_page])])"
  have h: "400 \<le> status_code ?r" "status_code ?r < 600"
    by (simp_all add: upstream_def)
  have j: "json ?r = Inr (JObject [(ascii ''message'', JString (ascii ''Could not find database'')),
                 (ascii ''results'', JArray [tokyo_page])])"
    by (simp add: upstream_def)
  have s: "status_code ?r = 404" by (simp add: upstream_def)
  from client_and_server_errors_not_extracted [OF h] http_error_object_body [OF h j] s
  show ?thesis by (simp add: error_body_def)
qed

text \<open>
  Claim C6 as stated fails: \<open>raise_for_status\<close> raises for 4xx and 5xx only, so a
  response with status 300 is read like a success and gives 200 with its names.
\<close>

theorem redirect_status_is_extracted:
  "status_code (upstream 300 ''Multiple Choices'' (JObject (results_body [tokyo_page]))) = 300
   \<and> get_cities (Post_returns (upstream 300 ''Multiple Choices'' (JObject (results_body [tokyo_page]))))
       = Inr (JArray [JString (ascii ''Tokyo'')], 200)"
proof -
  have "try_block (Post_returns (upstream 300 ''Multiple Choices'' (JObject (results_body [tokyo_page]))))
          = Inr [ascii ''Tokyo'']"
    by (simp add: try_block_upstream step_tokyo)
  then show ?thesis by (simp add: get_cities_def upstream_def)
qed

subsection \<open>Claim C7\<close>

text \<open>
  Claim C7, as the code has it. An exception of the \<open>try\<close> block that is neither a
  timeout nor another RequestException gives status 500 and a message made of the fixed
  prefix of line 120 followed by the text of the exception.
\<close>

theorem other_exceptions_give_500:
  assumes "try_block outcome = Inl e" "\<not> is_Timeout e" "\<not> is_RequestException e"
  shows "get_cities outcome = Inr (JObject [(ascii ''error'', JString (internal_error_prefix @ str_exc e))], 500)"
  using assms by (cases e) (simp_all add: get_cities_def error_body_def)

theorem other_exceptions_give_500_witness:
  "get_cities (Post_returns (upstream 200 ''OK'' (JObject (results_body [no_payload_page]))))
     = Inr (JObject [(ascii ''error'', JString (internal_error_prefix @ quoted (ascii ''title'')))], 500)"
proof -
  let ?out = "Post_returns (upstream 200 ''OK'' (JObject (results_body [no_payload_page])))"
  have t: "try_block ?out = Inl (KeyError (KStr (ascii ''title'')))"
    by (simp add: try_block_upstream step_no_payload)
  have n: "\<not> is_Timeout (KeyError (KStr (ascii ''title'')))"
    "\<not> is_RequestException (KeyError (KStr (ascii ''title'')))"
    by simp_all
  from other_exceptions_give_500 [OF t n] show ?thesis by simp
qed

text \<open>
  Claim C7 as stated fails: the message is not the same for every exception. Two
  requests that end in different KeyErrors get different messages.
\<close>

theorem message_depends_on_exception:
  "try_block (Post_returns (upstream 200 ''OK'' (JObject (results_body [untyped_page]))))
     = Inl (KeyError (KStr (ascii ''type'')))
   \<and> try_block (Post_returns (upstream 200 ''OK'' (JObject (results_body [no_payload_page]))))
     = Inl (KeyError (KStr (ascii ''title'')))
   \<and> get_cities (Post_returns (upstream 200 ''OK'' (JObject (results_body [untyped_page]))))
     = Inr (JObject [(ascii ''error'', JString (internal_error_prefix @ quoted (ascii ''type'')))], 500)
   \<and> get_cities (Post_returns (upstream 200 ''OK'' (JObject (results_body [no_payload_page]))))
     = Inr (JObject [(ascii ''error'', JString (internal_error_prefix @ quoted (ascii ''title'')))], 500)
   \<and> internal_error_prefix @ quoted (ascii ''type'') \<noteq> internal_error_prefix @ quoted (ascii ''title'')"
proof -
  have t1: "try_block (Post_returns (upstream 200 ''OK'' (JObject (results_body [untyped_page]))))
     = Inl (KeyError (KStr (ascii ''type'')))"
    by (simp add: try_block_upstream step_untyped)
  have t2: "try_block (Post_returns (upstream 200 ''OK'' (JObject (results_body [no_payload_page]))))
     = Inl (KeyError (KStr (ascii ''title'')))"
    by (simp add: try_block_upstream step_no_payload)
  show ?thesis
    by (simp add: t1 t2 get_cities_def error_body_def quoted_def)
qed

subsection \<open>Claim C8\<close>

text \<open>
  Claim C8. If the API token or the database identifier is absent from the environment,
  the module exits with status 1 at import: no route is registered and no server runs.
\<close>

theorem startup_aborts_without_credentials:
  assumes "environ (ascii ''NOTION_API_TOKEN'') = None \<or> environ (ascii ''NOTION_DATABASE_ID'') = None"
  shows "module_startup environ = Inl 1"
  using assms by (auto simp: module_startup_def Let_def split: option.splits)

theorem startup_aborts_without_credentials_witness:
  "module_startup (Map.empty (ascii ''NOTION_API_TOKEN'' \<mapsto> ascii ''secret'')) = Inl 1"
proof -
  let ?env = "Map.empty (ascii ''NOTION_API_TOKEN'' \<mapsto> ascii ''secret'')"
  have "?env (ascii ''NOTION_API_TOKEN'') = None \<or> ?env (ascii ''NOTION_DATABASE_ID'') = None"
    by simp
  from startup_aborts_without_credentials [OF this] show ?thesis .
qed

subsection \<open>Claim C9\<close>

text \<open>
  Claim C9. An upstream 2xx response whose body is a JSON object without the key
  \<open>results\<close> gives HTTP 200 with the empty array.
\<close>

theorem missing_results_gives_empty_list:
  assumes "200 \<le> status_code r" "status_code r < 300"
    and "json r = Inr (JObject body)"
    and "map_of body (ascii ''results'') = None"
  shows "get_cities (Post_returns r) = Inr (JArray [], 200)"
proof -
  have "try_block (Post_returns r) = Inr []"
    using assms by (simp add: try_block_def raise_for_status_ok py_iter_def)
  from get_cities_ok [OF this] show ?thesis by simp
qed

theorem missing_results_gives_empty_list_witness:
  "get_cities (Post_returns (upstream 200 ''OK'' (JObject [(ascii ''object'', JString (ascii ''list''))])))
     = Inr (JArray [], 200)"
proof -
  let ?r = "upstream 200 ''OK'' (JObject [(ascii ''object'', JString (ascii ''list''))])"
  have h: "200 \<le> status_code ?r" "status_code ?r < 300"
    "json ?r = Inr (JObject [(ascii ''object'', JString (ascii ''list''))])"
    "map_of [(ascii ''object'', JString (ascii ''list''))] (ascii ''results'') = None"
    by (simp_all add: upstream_def)
  from missing_results_gives_empty_list [OF h] show ?thesis .
qed

subsection \<open>Claim C10\<close>

text \<open>
  Claim C10, as the code has it. In an upstream 2xx response, a record whose \<open>City Name\<close>
  property is a non-empty object without \<open>type\<close>, or is of kind \<open>title\<close> or \<open>rich_text\<close>
  with a non-empty segment list whose first segment has no \<open>plain_text\<close>, makes the whole
  request fail: status 500 with the internal-error message, and no names.
\<close>

theorem malformed_record_gives_500:
  assumes "200 \<le> status_code r" "status_code r < 300"
    and "json r = Inr (JObject body)"
    and "map_of body (ascii ''results'') = Some (JArray records)"
    and "JObject pg \<in> set records"
    and "map_of pg (ascii ''properties'') = Some (JObject props)"
    and "map_of props (ascii ''City Name'') = Some (JObject cp)"
    and "(cp \<noteq> [] \<and> map_of cp (ascii ''type'') = None)
         \<or> (\<exists>kind seg segs. (kind = ascii ''title'' \<or> kind = ascii ''rich_text'')
               \<and> map_of cp (ascii ''type'') = Some (JString kind)
               \<and> map_of cp kind = Some (JArray (seg # segs))
               \<and> lacks_plain_text seg)"
  shows "\<exists>e. try_block (Post_returns r) = Inl e
           \<and> get_cities (Post_returns r)
               = Inr (JObject [(ascii ''error'', JString (internal_error_prefix @ str_exc e))], 500)"
proof -
  from assms(1,2) have ok: "\<not> (400 \<le> status_code r \<and> status_code r < 600)" by simp
  from extract_malformed [OF assms(6-8)] obtain e0 where "extract_city_name (JObject pg) = Inl e0"
    by blast
  then have "page_step (JObject pg) [] = Inl e0" by (rule page_step_extract_Inl)
  from for_pages_raises [OF assms(5) this] obtain e where e: "for_pages records [] = Inl e"
    by blast
  then have ie: "interpreter_error e" by (rule for_pages_Inl)
  from e try_block_results [OF ok assms(3,4)] have t: "try_block (Post_returns r) = Inl e" by simp
  from get_cities_interpreter_error [OF t ie] t show ?thesis
    by (auto simp: error_body_def)
qed

theorem malformed_record_gives_500_witness:
  "get_cities (Post_returns (upstream 200 ''OK'' (JObject (results_body [tokyo_page, untyped_page]))))
     = Inr (JObject [(ascii ''error'', JString (internal_error_prefix @ quoted (ascii ''type'')))], 500)"
proof -
  let ?pg = "[(ascii ''id'', JString (ascii ''4'')),
              (ascii ''properties'', JObject [(ascii ''City Name'', JObject [(ascii ''title'', JArray [])])])]"
  let ?r = "upstream 200 ''OK'' (JObject (results_body [tokyo_page, untyped_page]))"
  have n: "untyped_page = JObject ?pg" by (simp add: untyped_page_def city_page_def)
  have s: "200 \<le> status_code ?r" "status_code ?r < 300"
    by (simp_all add: upstream_def)
  have j: "json ?r = Inr (JObject (results_body [tokyo_page, untyped_page]))"
    by (simp add: upstream_def)
  have m: "map_of (results_body [tokyo_page, untyped_page]) (ascii ''results'')
             = Some (JArray [tokyo_page, untyped_page])"
    by (simp add: results_body_def)
  have i: "JObject ?pg \<in> set [tokyo_page, untyped_page]" by (simp add: n)
  have a1: "map_of ?pg (ascii ''properties'')
              = Some (JObject [(ascii ''City Name'', JObject [(ascii ''title'', JArray [])])])"
    by simp
  have a2: "map_of [(ascii ''City Name'', JObject [(ascii ''title'', JArray [])])] (ascii ''City Name'')
              = Some (JObject [(ascii ''title'', JArray [])])"
    by simp
  have a3: "([(ascii ''title'', JArray [])] \<noteq> [] \<and> map_of [(ascii ''title'', JArray [])] (ascii ''type'') = None)
         \<or> (\<exists>kind seg segs. (kind = ascii ''title'' \<or> kind = ascii ''rich_text'')
               \<and> map_of [(ascii ''title'', JArray [])] (ascii ''type'') = Some (JString kind)
               \<and> map_of [(ascii ''title'', JArray [])] kind = Some (JArray (seg # segs))
               \<and> lacks_plain_text seg)"
    by simp
  have t: "try_block (Post_returns ?r) = Inl (KeyError (KStr (ascii ''type'')))"
    by (simp add: try_block_upstream step_tokyo step_untyped)
  from malformed_record_gives_500 [OF s j m i a1 a2 a3] t show ?thesis
    by simp
qed

text \<open>
  Claim C10 as stated fails for the empty property object: it has no \<open>type\<close> key, but
  line 84 finds it falsy and the record is skipped; the names of the other records are
  returned with status 200.
\<close>

theorem empty_property_is_skipped:
  "spec_city_name_property empty_property_page = Some (JObject [])
   \<and> map_of ([] :: (str \<times> jvalue) list) (ascii ''type'') = None
   \<and> get_cities (Post_returns (upstream 200 ''OK'' (JObject (results_body [empty_property_page, tokyo_page]))))
       = Inr (JArray [JString (ascii ''Tokyo'')], 200)"
proof -
  have "try_block (Post_returns (upstream 200 ''OK'' (JObject (results_body [empty_property_page, tokyo_page]))))
          = Inr [ascii ''Tokyo'']"
    by (simp add: try_block_upstream step_tokyo step_empty_property)
  then show ?thesis
    by (simp add: get_cities_def spec_city_name_property_def empty_property_page_def city_page_def)
qed

end
